theory Spec2Isabelle
  imports Complex_Main "HOL-Library.AList"
begin

section \<open>Data model (types/game.ts)\<close>

text \<open>
  JavaScript numbers are modelled as follows: coordinates, thickness and multipliers are
  \<open>real\<close> (the rounding of IEEE doubles is not modelled), health, damage and
  millisecond timestamps are \<open>int\<close>.

  A \<open>Record<string, T>\<close> is an association list with distinct keys, in insertion order:
  \<open>{...obj, [k]: v}\<close> is \<open>AList.update k v\<close> (an existing key keeps its place, a
  new key goes to the end), \<open>delete obj[k]\<close> is \<open>AList.delete k\<close>,
  \<open>obj[k]\<close> is \<open>map_of obj k\<close> (\<open>None\<close> for \<open>undefined\<close>),
  \<open>Object.values\<close> is \<open>map snd\<close> and \<open>Object.keys\<close> is \<open>map fst\<close>.
  Two things of JavaScript objects are left out: keys that are array indices, which
  JavaScript lists first, and the properties every object inherits (a lookup of the key
  "constructor" finds one); identities are taken to be neither.
\<close>

record vec3 =
  vx :: real
  vy :: real
  vz :: real

datatype PowerUpType = Speed | Damage | Health | Shield | Multishot

record ActivePowerUp =
  effect_type :: PowerUpType
  endTime :: int
  multiplier :: real

record PenStroke =
  stroke_id :: string
  points :: "vec3 list"
  stroke_color :: string
  thickness :: real
  stroke_timestamp :: int

text \<open>
  The reducer's \<open>player_move\<close> case can store an object that has only a position and a
  rotation, so every other field of a player may be \<open>undefined\<close>: \<open>None\<close>.
  For \<open>health\<close>, \<open>None\<close> stands for both \<open>undefined\<close> and \<open>NaN\<close>
  (\<open>undefined - d\<close> is \<open>NaN\<close>, and every comparison with either is false).
\<close>

record Player =
  player_id :: "string option"
  name :: "string option"
  position :: vec3
  rotation :: vec3
  health :: "int option"
  maxHealth :: "int option"
  color :: "string option"
  isDrawing :: "bool option"
  penStrokes :: "PenStroke list option"
  activePowerUps :: "ActivePowerUp list option"
  score :: "int option"
  kills :: "int option"
  deaths :: "int option"
  team :: "string option"

record PowerUpData =
  powerup_id :: string
  powerup_type :: PowerUpType
  powerup_position :: vec3
  timestamp :: int
  duration :: int

datatype GameStatus = waiting | playing | finished | countdown

record GameModeInfo =
  mode_id :: string
  mode_name :: string
  mode_duration :: int
  maxPlayers :: int

record LeaderboardEntry =
  entry_playerId :: string
  entry_playerName :: string
  entry_score :: int
  entry_kills :: int
  entry_deaths :: int

record GameState =
  players :: "(string \<times> Player) list"
  gameStatus :: GameStatus
  gameMode :: GameModeInfo
  powerUps :: "(string \<times> PowerUpData) list"
  startTime :: "int option"
  game_endTime :: "int option"
  winner :: "string option"
  roomId :: string
  leaderboard :: "LeaderboardEntry list"

text \<open>
  An inbound message \<open>{ type, playerId, data, timestamp }\<close>. The type tag and its payload
  are one value of \<open>MessageData\<close>; the fields a case of the reducer reads are taken as
  present and of the declared type. The tags without a case in the reducer's
  \<open>switch\<close> (\<open>game_state\<close>, \<open>player_join\<close>, \<open>player_leave\<close>,
  \<open>game_mode_change\<close>, \<open>countdown_start\<close>) are \<open>other_message\<close>.
\<close>

datatype MessageData =
    player_move vec3 vec3
  | pen_stroke PenStroke "string list" int
  | player_attack string int
  | power_up_spawn PowerUpData
  | power_up_collect string ActivePowerUp
  | other_message

record GameMessage =
  playerId :: string
  data :: MessageData
  message_timestamp :: int

datatype error = TypeError

section \<open>The reducer: handleGameMessage (GameArena)\<close>

text \<open>The object \<open>{ position, rotation }\<close>: what \<open>{...undefined, position, rotation}\<close> is.\<close>

definition bare_player :: "vec3 \<Rightarrow> vec3 \<Rightarrow> Player" where
  "bare_player pos rot =
     \<lparr>player_id = None, name = None, position = pos, rotation = rot, health = None,
      maxHealth = None, color = None, isDrawing = None, penStrokes = None,
      activePowerUps = None, score = None, kills = None, deaths = None, team = None\<rparr>"

text \<open>
  \<open>if (newPlayers[id]) newPlayers[id] = {...newPlayers[id], penStrokes:
  [...(newPlayers[id]?.penStrokes || []), stroke]}\<close>
\<close>

definition addStroke :: "string \<Rightarrow> PenStroke \<Rightarrow> (string \<times> Player) list \<Rightarrow> (string \<times> Player) list" where
  "addStroke pid s ps =
     (case map_of ps pid of
        None \<Rightarrow> ps
      | Some p \<Rightarrow>
          AList.update pid
            (p\<lparr>penStrokes := Some ((case penStrokes p of None \<Rightarrow> [] | Some ss \<Rightarrow> ss) @ [s])\<rparr>) ps)"

text \<open>
  \<open>if (newPlayers[id]) newPlayers[id] = {...newPlayers[id],
  health: Math.max(0, newPlayers[id].health - damage)}\<close>
\<close>

definition damagePlayer :: "int \<Rightarrow> string \<Rightarrow> (string \<times> Player) list \<Rightarrow> (string \<times> Player) list" where
  "damagePlayer d k ps =
     (case map_of ps k of
        None \<Rightarrow> ps
      | Some p \<Rightarrow> AList.update k (p\<lparr>health := map_option (\<lambda>h. max 0 (h - d)) (health p)\<rparr>) ps)"

text \<open>
  \<open>[...newPlayers[id].activePowerUps, effect]\<close> throws a TypeError when the player
  object has no \<open>activePowerUps\<close>.
\<close>

definition addEffect :: "string \<Rightarrow> ActivePowerUp \<Rightarrow> (string \<times> Player) list \<Rightarrow> error + (string \<times> Player) list" where
  "addEffect pid e ps =
     (case map_of ps pid of
        None \<Rightarrow> Inr ps
      | Some p \<Rightarrow>
          (case activePowerUps p of
             None \<Rightarrow> Inl TypeError
           | Some es \<Rightarrow> Inr (AList.update pid (p\<lparr>activePowerUps := Some (es @ [e])\<rparr>) ps)))"

text \<open>
  The \<open>switch\<close> of \<open>handleGameMessage\<close>. In the \<open>pen_stroke\<close> case the test
  \<open>message.data.hitPlayers && message.data.damage\<close> is the truthiness of an array
  (always true) and of a number (true unless it is 0).
\<close>

definition handleGameMessage :: "GameMessage \<Rightarrow> GameState \<Rightarrow> error + GameState" where
  "handleGameMessage m prev =
     (case data m of
        player_move pos rot \<Rightarrow>
          Inr (prev\<lparr>players :=
            AList.update (playerId m)
              (case map_of (players prev) (playerId m) of
                 None \<Rightarrow> bare_player pos rot
               | Some p \<Rightarrow> p\<lparr>position := pos, rotation := rot\<rparr>)
              (players prev)\<rparr>)
      | pen_stroke stroke hitPlayers damage \<Rightarrow>
          (let newPlayers = addStroke (playerId m) stroke (players prev);
               newPlayers = (if damage \<noteq> 0 then fold (damagePlayer damage) hitPlayers newPlayers
                             else newPlayers)
           in Inr (prev\<lparr>players := newPlayers\<rparr>))
      | player_attack targetId damage \<Rightarrow>
          Inr (prev\<lparr>players := damagePlayer damage targetId (players prev)\<rparr>)
      | power_up_spawn powerUp \<Rightarrow>
          Inr (prev\<lparr>powerUps := AList.update (powerup_id powerUp) powerUp (powerUps prev)\<rparr>)
      | power_up_collect powerUpId effect \<Rightarrow>
          (case addEffect (playerId m) effect (players prev) of
             Inl e \<Rightarrow> Inl e
           | Inr newPlayers \<Rightarrow>
               Inr (prev\<lparr>players := newPlayers,
                         powerUps := AList.delete powerUpId (powerUps prev)\<rparr>))
      | other_message \<Rightarrow> Inr prev)"

section \<open>The reducer of SpectatorMode\<close>


section \<open>Local state and handlers of GameArena\<close>

text \<open>
  The component's state: the \<open>useState\<close> cells the handlers read and write, and
  whether \<open>channelRef.current\<close> is set. \<open>keys[code]\<close> is \<open>keys code\<close>
  (\<open>False\<close> for a code never pressed). A handler reads the game state it was
  created with and passes an update function to \<open>setGameState\<close>; the two states are
  taken to be the same one, the handler's argument.
\<close>

record Arena =
  gameState :: GameState
  currentPlayerId :: string
  drawing :: bool
  currentStroke :: "PenStroke option"
  keys :: "string \<Rightarrow> bool"
  channel :: bool

text \<open>
  What a handler hands to \<open>channel.publish\<close>: the message type with its payload. The hit
  list of a stroke holds \<open>player.id\<close> values, which may be \<open>undefined\<close>.
\<close>

datatype Publish =
    publish_player_join string
  | publish_player_move string vec3 vec3
  | publish_pen_stroke string PenStroke "string option list" int
  | publish_power_up_spawn PowerUpData
  | publish_power_up_collect string string ActivePowerUp

subsection \<open>handlePowerUpCollect\<close>

definition handlePowerUpCollect :: "int \<Rightarrow> string \<Rightarrow> Arena \<Rightarrow> error + (Publish list \<times> Arena)" where
  "handlePowerUpCollect now powerUpId a =
     (if \<not> channel a then Inr ([], a)
      else case map_of (powerUps (gameState a)) powerUpId of
        None \<Rightarrow> Inr ([], a)
      | Some powerUp \<Rightarrow>
          (let effect = \<lparr>effect_type = powerup_type powerUp, endTime = now + 10000,
                         multiplier = 1.5\<rparr>
           in case addEffect (currentPlayerId a) effect (players (gameState a)) of
                Inl e \<Rightarrow> Inl e
              | Inr newPlayers \<Rightarrow>
                  Inr ([publish_power_up_collect (currentPlayerId a) powerUpId effect],
                       a\<lparr>gameState := (gameState a)
                            \<lparr>players := newPlayers,
                             powerUps := AList.delete powerUpId (powerUps (gameState a))\<rparr>\<rparr>)))"

subsection \<open>spawnPowerUp\<close>

text \<open>Decimal digits of a number, as a template string renders \<open>Date.now()\<close>.\<close>

fun decimal :: "nat \<Rightarrow> string" where
  "decimal n =
     (if n < 10 then [char_of (48 + n)] else decimal (n div 10) @ [char_of (48 + n mod 10)])"

declare decimal.simps [simp del]

text \<open>
  The effect that schedules \<open>spawnPowerUp\<close> returns at once unless the game status is
  \<open>playing\<close>. The results of \<open>Math.random()\<close> are arguments: the text of the random
  number in the id, the element of \<open>powerUpTypes\<close> chosen, and the two numbers of the
  position.
\<close>

definition spawnPowerUp :: "int \<Rightarrow> string \<Rightarrow> PowerUpType \<Rightarrow> real \<Rightarrow> real \<Rightarrow> Arena \<Rightarrow> Publish list \<times> Arena" where
  "spawnPowerUp now randomText randomType rx rz a =
     (if gameStatus (gameState a) \<noteq> playing then ([], a)
      else
        (let powerUp = \<lparr>powerup_id = ''powerup-'' @ decimal (nat now) @ ''-'' @ randomText,
                        powerup_type = randomType,
                        powerup_position = \<lparr>vx = (rx - 0.5) * 16, vy = 1, vz = (rz - 0.5) * 16\<rparr>,
                        timestamp = now,
                        duration = 30000\<rparr>
         in ((if channel a then [publish_power_up_spawn powerUp] else []),
             a\<lparr>gameState := (gameState a)
                  \<lparr>powerUps := AList.update (powerup_id powerUp) powerUp (powerUps (gameState a))\<rparr>\<rparr>)))"

subsection \<open>The expiry sweep\<close>

text \<open>
  \<open>Object.keys(newPowerUps).forEach(id => { if (now - newPowerUps[id].timestamp >
  newPowerUps[id].duration) { delete newPowerUps[id]; changed = true } })\<close>
\<close>

definition sweepPowerUp :: "int \<Rightarrow> string \<Rightarrow> (string \<times> PowerUpData) list \<times> bool \<Rightarrow> (string \<times> PowerUpData) list \<times> bool" where
  "sweepPowerUp now k acc =
     (case map_of (fst acc) k of
        None \<Rightarrow> acc
      | Some pu \<Rightarrow>
          if now - timestamp pu > duration pu then (AList.delete k (fst acc), True) else acc)"

text \<open>
  The loop over the players; \<open>player.activePowerUps.filter\<close> throws a TypeError on a player
  object without \<open>activePowerUps\<close>.
\<close>

fun sweepPlayers :: "int \<Rightarrow> string list \<Rightarrow> (string \<times> Player) list \<times> bool \<Rightarrow> error + ((string \<times> Player) list \<times> bool)" where
  "sweepPlayers now [] acc = Inr acc"
| "sweepPlayers now (k # ks) acc =
     (case map_of (fst acc) k of
        None \<Rightarrow> sweepPlayers now ks acc
      | Some player \<Rightarrow>
          (case activePowerUps player of
             None \<Rightarrow> Inl TypeError
           | Some es \<Rightarrow>
               (let kept = filter (\<lambda>pu. endTime pu > now) es
                in if length kept \<noteq> length es
                   then sweepPlayers now ks
                          (AList.update k (player\<lparr>activePowerUps := Some kept\<rparr>) (fst acc), True)
                   else sweepPlayers now ks acc)))"

definition cleanupExpired :: "int \<Rightarrow> GameState \<Rightarrow> error + GameState" where
  "cleanupExpired now prev =
     (let swept = fold (sweepPowerUp now) (map fst (powerUps prev)) (powerUps prev, False)
      in case sweepPlayers now (map fst (players prev)) (players prev, snd swept) of
           Inl e \<Rightarrow> Inl e
         | Inr (newPlayers, changed) \<Rightarrow>
             Inr (if changed then prev\<lparr>powerUps := fst swept, players := newPlayers\<rparr> else prev))"

subsection \<open>Keys and the movement effect\<close>

definition handleKeyDown :: "string \<Rightarrow> Arena \<Rightarrow> Arena" where
  "handleKeyDown code a = a\<lparr>keys := (keys a)(code := True)\<rparr>"

definition handleKeyUp :: "string \<Rightarrow> Arena \<Rightarrow> Arena" where
  "handleKeyUp code a = a\<lparr>keys := (keys a)(code := False)\<rparr>"

text \<open>\<open>Math.max(-8, Math.min(8, v))\<close>\<close>

definition boundary :: "real \<Rightarrow> real" where
  "boundary v = max (-8) (min 8 v)"

text \<open>
  One run of the effect "Update player position based on keys": the candidate position and
  the flag \<open>moved\<close> after the four key tests and the boundary constraints.
\<close>

definition candidate :: "(string \<Rightarrow> bool) \<Rightarrow> vec3 \<Rightarrow> vec3 \<times> bool" where
  "candidate ks pos =
     (let moveSpeed = 0.1;
          newPosition = pos;
          moved = False;
          (newPosition, moved) =
             (if ks ''KeyW'' \<or> ks ''ArrowUp''
              then (newPosition\<lparr>vz := vz newPosition - moveSpeed\<rparr>, True)
              else (newPosition, moved));
          (newPosition, moved) =
             (if ks ''KeyS'' \<or> ks ''ArrowDown''
              then (newPosition\<lparr>vz := vz newPosition + moveSpeed\<rparr>, True)
              else (newPosition, moved));
          (newPosition, moved) =
             (if ks ''KeyA'' \<or> ks ''ArrowLeft''
              then (newPosition\<lparr>vx := vx newPosition - moveSpeed\<rparr>, True)
              else (newPosition, moved));
          (newPosition, moved) =
             (if ks ''KeyD'' \<or> ks ''ArrowRight''
              then (newPosition\<lparr>vx := vx newPosition + moveSpeed\<rparr>, True)
              else (newPosition, moved));
          newPosition = newPosition\<lparr>vx := boundary (vx newPosition)\<rparr>;
          newPosition = newPosition\<lparr>vz := boundary (vz newPosition)\<rparr>
      in (newPosition, moved))"

definition movementEffect :: "Arena \<Rightarrow> Publish list \<times> Arena" where
  "movementEffect a =
     (case map_of (players (gameState a)) (currentPlayerId a) of
        None \<Rightarrow> ([], a)
      | Some currentPlayer \<Rightarrow>
          if \<not> channel a then ([], a)
          else
            (let (newPosition, moved) = candidate (keys a) (position currentPlayer)
             in if moved
                then ([publish_player_move (currentPlayerId a) newPosition (rotation currentPlayer)],
                      a\<lparr>gameState := (gameState a)
                           \<lparr>players := AList.update (currentPlayerId a)
                                          (currentPlayer\<lparr>position := newPosition\<rparr>)
                                          (players (gameState a))\<rparr>\<rparr>)
                else ([], a)))"

subsection \<open>Drawing a stroke\<close>

text \<open>\<open>a || b\<close> on an optional string: the empty string is falsy too.\<close>

definition or_else :: "string option \<Rightarrow> string \<Rightarrow> string" where
  "or_else v d = (case v of None \<Rightarrow> d | Some s \<Rightarrow> if s = [] then d else s)"

definition startDrawing :: "int \<Rightarrow> Arena \<Rightarrow> Arena" where
  "startDrawing now a =
     (let newStroke =
            \<lparr>stroke_id = ''stroke-'' @ decimal (nat now),
             points = [],
             stroke_color =
               or_else (case map_of (players (gameState a)) (currentPlayerId a) of
                          None \<Rightarrow> None
                        | Some p \<Rightarrow> color p) ''#FF6B35'',
             thickness = 0.05,
             stroke_timestamp = now\<rparr>
      in a\<lparr>currentStroke := Some newStroke, drawing := True\<rparr>)"

text \<open>
  \<open>handleMouseMove\<close>; \<open>x\<close> and \<open>y\<close> are the pointer's coordinates after the handler has
  scaled them to the canvas rectangle.
\<close>

definition handleMouseMove :: "real \<Rightarrow> real \<Rightarrow> int \<Rightarrow> Arena \<Rightarrow> Arena" where
  "handleMouseMove x y now a =
     (if \<not> drawing a then a
      else case currentStroke a of
        None \<Rightarrow> a
      | Some stroke \<Rightarrow>
          (case map_of (players (gameState a)) (currentPlayerId a) of
             None \<Rightarrow> a
           | Some currentPlayer \<Rightarrow>
               (let point = \<lparr>vx = vx (position currentPlayer) + x * 3,
                             vy = vy (position currentPlayer) + y * 2 + 1,
                             vz = vz (position currentPlayer) + sin (real_of_int now * 0.01) * 0.5\<rparr>
                in a\<lparr>currentStroke := Some (stroke\<lparr>points := points stroke @ [point]\<rparr>)\<rparr>)))"

text \<open>
  \<open>Math.sqrt(Math.pow(point.x - player.position.x, 2) + Math.pow(point.y -
  player.position.y, 2) + Math.pow(point.z - player.position.z, 2))\<close>
\<close>

definition distance :: "vec3 \<Rightarrow> vec3 \<Rightarrow> real" where
  "distance point pos = sqrt ((vx point - vx pos)\<^sup>2 + (vy point - vy pos)\<^sup>2 + (vz point - vz pos)\<^sup>2)"

text \<open>\<open>player.health <= 0\<close>, false when the health is \<open>undefined\<close> or \<open>NaN\<close>.\<close>

definition health_le_0 :: "Player \<Rightarrow> bool" where
  "health_le_0 player = (case health player of None \<Rightarrow> False | Some h \<Rightarrow> h \<le> 0)"

text \<open>The inner loop of \<open>checkStrokeCollisions\<close>, over the points of the stroke.\<close>

definition checkPoint :: "Player \<Rightarrow> vec3 \<Rightarrow> string option list \<Rightarrow> string option list" where
  "checkPoint player point hitPlayers =
     (if distance point (position player) < 0.8
      then (if player_id player \<in> set hitPlayers then hitPlayers
            else hitPlayers @ [player_id player])
      else hitPlayers)"

text \<open>The outer loop, over \<open>Object.values(gameState.players)\<close>.\<close>

definition checkPlayer :: "string \<Rightarrow> vec3 list \<Rightarrow> Player \<Rightarrow> string option list \<Rightarrow> string option list" where
  "checkPlayer cur strokePoints player hitPlayers =
     (if player_id player = Some cur \<or> health_le_0 player then hitPlayers
      else fold (checkPoint player) strokePoints hitPlayers)"

definition checkStrokeCollisions :: "(string \<times> Player) list \<Rightarrow> string \<Rightarrow> PenStroke \<Rightarrow> string option list" where
  "checkStrokeCollisions ps cur stroke =
     (let strokePoints = points stroke
      in if length strokePoints < 2 then []
         else fold (checkPlayer cur strokePoints) (map snd ps) [])"

text \<open>A value used as a property key: \<open>undefined\<close> becomes the string "undefined".\<close>

definition property_key :: "string option \<Rightarrow> string" where
  "property_key v = (case v of None \<Rightarrow> ''undefined'' | Some s \<Rightarrow> s)"

definition stopDrawing :: "Arena \<Rightarrow> Publish list \<times> Arena" where
  "stopDrawing a =
     (case currentStroke a of
        None \<Rightarrow> ([], a)
      | Some stroke \<Rightarrow>
          if \<not> channel a then ([], a)
          else
            (let hitPlayers = checkStrokeCollisions (players (gameState a)) (currentPlayerId a) stroke;
                 damage = min (int (length (points stroke)) * 2) 25;
                 newPlayers =
                   (if length hitPlayers > 0
                    then fold (damagePlayer damage) (map property_key hitPlayers)
                           (players (gameState a))
                    else players (gameState a))
             in ([publish_pen_stroke (currentPlayerId a) stroke hitPlayers damage],
                 a\<lparr>drawing := False,
                   gameState := (gameState a)\<lparr>players := newPlayers\<rparr>,
                   currentStroke := None\<rparr>)))"

subsection \<open>Connecting and presence\<close>

text \<open>
  A member of the presence snapshot, with the two results of \<open>Math.random()\<close> that the
  handler draws for it.
\<close>

record PresenceUser =
  userId :: string
  displayName :: "string option"
  user_color :: "string option"
  random_x :: real
  random_z :: real

definition presencePlayer :: "PresenceUser \<Rightarrow> Player" where
  "presencePlayer user =
     \<lparr>player_id = Some (userId user),
      name = Some (or_else (displayName user) ''Anonymous''),
      position = \<lparr>vx = random_x user * 10 - 5, vy = 0, vz = random_z user * 10 - 5\<rparr>,
      rotation = \<lparr>vx = 0, vy = 0, vz = 0\<rparr>,
      health = Some 100,
      maxHealth = Some 100,
      color = Some (or_else (user_color user) ''#FF6B35''),
      isDrawing = Some False,
      penStrokes = Some [],
      activePowerUps = Some [],
      score = Some 0,
      kills = Some 0,
      deaths = Some 0,
      team = None\<rparr>"

definition onPresence :: "PresenceUser list \<Rightarrow> GameState \<Rightarrow> GameState" where
  "onPresence users prev =
     prev\<lparr>players := fold (\<lambda>user ps. AList.update (userId user) (presencePlayer user) ps) users []\<rparr>"

definition setupGame :: "string \<Rightarrow> Arena \<Rightarrow> Publish list \<times> Arena" where
  "setupGame playerName a = ([publish_player_join (currentPlayerId a)], a\<lparr>channel := True\<rparr>)"

definition initialArena :: "string \<Rightarrow> GameModeInfo \<Rightarrow> string \<Rightarrow> Arena" where
  "initialArena room mode user =
     \<lparr>gameState =
        \<lparr>players = [], gameStatus = waiting, gameMode = mode, powerUps = [],
         startTime = None, game_endTime = None, winner = None, roomId = room,
         leaderboard = []\<rparr>,
      currentPlayerId = user,
      drawing = False,
      currentStroke = None,
      keys = (\<lambda>_. False),
      channel = False\<rparr>"

section \<open>Runs of the component\<close>

text \<open>
  Everything that can happen to a GameArena: an inbound message, a presence snapshot, and
  the local handlers and timers. A run applies a list of events in order and stops at the
  first error.
\<close>

datatype event =
    Inbound GameMessage
  | PresenceChange "PresenceUser list"
  | Setup string
  | KeyDown string
  | KeyUp string
  | MovementEffect
  | MouseDown int
  | MouseMove real real int
  | MouseUp
  | CollectPowerUp int string
  | SpawnTimer int string PowerUpType real real
  | CleanupTimer int

fun step :: "event \<Rightarrow> Arena \<Rightarrow> error + Arena" where
  "step (Inbound m) a =
     (case handleGameMessage m (gameState a) of
        Inl e \<Rightarrow> Inl e
      | Inr s \<Rightarrow> Inr (a\<lparr>gameState := s\<rparr>))"
| "step (PresenceChange users) a = Inr (a\<lparr>gameState := onPresence users (gameState a)\<rparr>)"
| "step (Setup playerName) a = Inr (snd (setupGame playerName a))"
| "step (KeyDown code) a = Inr (handleKeyDown code a)"
| "step (KeyUp code) a = Inr (handleKeyUp code a)"
| "step MovementEffect a = Inr (snd (movementEffect a))"
| "step (MouseDown now) a = Inr (startDrawing now a)"
| "step (MouseMove x y now) a = Inr (handleMouseMove x y now a)"
| "step MouseUp a = Inr (snd (stopDrawing a))"
| "step (CollectPowerUp now powerUpId) a =
     (case handlePowerUpCollect now powerUpId a of
        Inl e \<Rightarrow> Inl e
      | Inr r \<Rightarrow> Inr (snd r))"
| "step (SpawnTimer now randomText randomType rx rz) a =
     Inr (snd (spawnPowerUp now randomText randomType rx rz a))"
| "step (CleanupTimer now) a =
     (case cleanupExpired now (gameState a) of
        Inl e \<Rightarrow> Inl e
      | Inr s \<Rightarrow> Inr (a\<lparr>gameState := s\<rparr>))"

fun run :: "event list \<Rightarrow> Arena \<Rightarrow> error + Arena" where
  "run [] a = Inr a"
| "run (e # es) a = (case step e a of Inl err \<Rightarrow> Inl err | Inr a' \<Rightarrow> run es a')"

section \<open>Observations and example data\<close>

text \<open>\<open>players[k]?.health\<close>\<close>

definition healthOf :: "GameState \<Rightarrow> string \<Rightarrow> int option" where
  "healthOf s k = (case map_of (players s) k of None \<Rightarrow> None | Some p \<Rightarrow> health p)"

definition example_user :: "string \<Rightarrow> real \<Rightarrow> real \<Rightarrow> PresenceUser" where
  "example_user u rx rz =
     \<lparr>userId = u, displayName = Some u, user_color = None, random_x = rx, random_z = rz\<rparr>"

definition example_mode :: GameModeInfo where
  "example_mode =
     \<lparr>mode_id = ''deathmatch'', mode_name = ''Deathmatch'', mode_duration = 0, maxPlayers = 8\<rparr>"

text \<open>
  A connected arena of alice after a presence snapshot of four users: alice at the origin,
  bob at \<open>(0.5, 0, 0)\<close>, carol at \<open>(4, 0, 4)\<close> and dave at \<open>(1, 0, 0)\<close>, each
  with health 100 of 100.
\<close>

definition example_arena :: Arena where
  "example_arena =
     (initialArena ''room'' example_mode ''alice'')
       \<lparr>gameState := onPresence
          [example_user ''alice'' 0.5 0.5, example_user ''bob'' 0.55 0.5,
           example_user ''carol'' 0.9 0.9, example_user ''dave'' 0.6 0.5]
          (gameState (initialArena ''room'' example_mode ''alice'')),
        channel := True\<rparr>"

definition example_stroke :: "vec3 list \<Rightarrow> PenStroke" where
  "example_stroke pts =
     \<lparr>stroke_id = ''stroke-1'', points = pts, stroke_color = ''#FF6B35'', thickness = 0.05,
      stroke_timestamp = 1\<rparr>"

definition example_hit :: "string list \<Rightarrow> int \<Rightarrow> GameMessage" where
  "example_hit hits d =
     \<lparr>playerId = ''alice'', data = pen_stroke (example_stroke []) hits d, message_timestamp = 2\<rparr>"

text \<open>\<open>players[k]?.maxHealth\<close>\<close>

definition maxHealthOf :: "GameState \<Rightarrow> string \<Rightarrow> int option" where
  "maxHealthOf s k = (case map_of (players s) k of None \<Rightarrow> None | Some p \<Rightarrow> maxHealth p)"

text \<open>
  The health bounds of one player object: a health that is a number is not negative and,
  when \<open>upper\<close> is set, not above the player's \<open>maxHealth\<close>.
\<close>

definition player_ok :: "bool \<Rightarrow> Player \<Rightarrow> bool" where
  "player_ok upper p =
     (case health p of
        None \<Rightarrow> True
      | Some h \<Rightarrow> 0 \<le> h \<and> (upper \<longrightarrow> (case maxHealth p of None \<Rightarrow> False | Some m \<Rightarrow> h \<le> m)))"

definition players_ok :: "bool \<Rightarrow> (string \<times> Player) list \<Rightarrow> bool" where
  "players_ok upper ps = (\<forall>(k, p) \<in> set ps. player_ok upper p)"

text \<open>An event whose damage, if it is an inbound message that carries one, is not negative.\<close>

fun damage_nonneg :: "event \<Rightarrow> bool" where
  "damage_nonneg (Inbound m) =
     (case data m of
        pen_stroke stroke hitPlayers damage \<Rightarrow> 0 \<le> damage
      | player_attack targetId damage \<Rightarrow> 0 \<le> damage
      | _ \<Rightarrow> True)"
| "damage_nonneg _ = True"

definition example_attack :: "string \<Rightarrow> int \<Rightarrow> GameMessage" where
  "example_attack target d =
     \<lparr>playerId = ''alice'', data = player_attack target d, message_timestamp = 3\<rparr>"

text \<open>
  Alice connects, a presence snapshot lists alice and bob, then a stroke of damage 30 and an
  attack of damage 90 on bob arrive.
\<close>

definition example_run :: "event list" where
  "example_run =
     [Setup ''alice'',
      PresenceChange [example_user ''alice'' 0.5 0.5, example_user ''bob'' 0.55 0.5],
      Inbound (example_hit [''bob''] 30),
      Inbound (example_attack ''bob'' 90)]"

text \<open>
  A players mapping of \<open>Player\<close> objects as the interface declares them and the presence
  handler builds them: the keys are distinct, every player object is stored under its own
  \<open>id\<close> and has a health that is a number.
\<close>

definition tracked_players :: "(string \<times> Player) list \<Rightarrow> bool" where
  "tracked_players ps =
     (distinct (map fst ps) \<and> (\<forall>(k, p) \<in> set ps. player_id p = Some k \<and> health p \<noteq> None))"

definition example_point :: "real \<Rightarrow> real \<Rightarrow> real \<Rightarrow> vec3" where
  "example_point a b c = \<lparr>vx = a, vy = b, vz = c\<rparr>"

text \<open>A stroke of five points that passes bob and dave, and alice about to release it.\<close>

definition example_stroke5 :: PenStroke where
  "example_stroke5 =
     example_stroke [example_point 0.5 0.5 0, example_point 0.6 0.5 0, example_point 0.7 0.5 0,
                     example_point 0.8 0.5 0, example_point 0.9 0.5 0]"

definition example_drawing :: Arena where
  "example_drawing = example_arena\<lparr>drawing := True, currentStroke := Some example_stroke5\<rparr>"

text \<open>\<open>players[k]?.activePowerUps\<close>\<close>

definition effectsOf :: "GameState \<Rightarrow> string \<Rightarrow> ActivePowerUp list option" where
  "effectsOf s k = (case map_of (players s) k of None \<Rightarrow> None | Some p \<Rightarrow> activePowerUps p)"

text \<open>The example arena with one power-up of type \<open>health\<close> spawned at time 1000.\<close>

definition example_powerUp :: PowerUpData where
  "example_powerUp =
     \<lparr>powerup_id = ''pu1'', powerup_type = Health,
      powerup_position = \<lparr>vx = 2, vy = 1, vz = 2\<rparr>, timestamp = 1000, duration = 30000\<rparr>"

definition example_spawned :: Arena where
  "example_spawned =
     example_arena\<lparr>gameState := (gameState example_arena)\<lparr>powerUps := [(''pu1'', example_powerUp)]\<rparr>\<rparr>"

definition example_effect :: ActivePowerUp where
  "example_effect = \<lparr>effect_type = Health, endTime = 12000, multiplier = 1.5\<rparr>"




text \<open>One of the eight keys that the movement effect tests is held.\<close>

definition movement_key_held :: "(string \<Rightarrow> bool) \<Rightarrow> bool" where
  "movement_key_held ks =
     (ks ''KeyW'' \<or> ks ''ArrowUp'' \<or> ks ''KeyS'' \<or> ks ''ArrowDown'' \<or>
      ks ''KeyA'' \<or> ks ''ArrowLeft'' \<or> ks ''KeyD'' \<or> ks ''ArrowRight'')"

text \<open>\<open>n\<close> runs of the movement effect, one after the other.\<close>

primrec ticks :: "nat \<Rightarrow> Arena \<Rightarrow> Arena" where
  "ticks 0 a = a"
| "ticks (Suc n) a = ticks n (snd (movementEffect a))"

text \<open>\<open>players[k]?.position\<close>\<close>

definition positionOf :: "GameState \<Rightarrow> string \<Rightarrow> vec3 option" where
  "positionOf s k = (case map_of (players s) k of None \<Rightarrow> None | Some p \<Rightarrow> Some (position p))"

text \<open>
  Alice alone in a connected arena, placed by the presence handler at \<open>x = -4.95\<close>, with
  the key A held; and the same arena with alice at \<open>(x, 0, 0)\<close>.
\<close>

definition example_walker :: Arena where
  "example_walker =
     handleKeyDown ''KeyA''
       ((initialArena ''room'' example_mode ''alice'')
          \<lparr>gameState := onPresence [example_user ''alice'' 0.005 0.5]
             (gameState (initialArena ''room'' example_mode ''alice'')),
           channel := True\<rparr>)"

definition example_walker_at :: "real \<Rightarrow> Arena" where
  "example_walker_at x =
     example_walker
       \<lparr>gameState := (gameState example_walker)
          \<lparr>players := [(''alice'', (presencePlayer (example_user ''alice'' 0.005 0.5))
                                    \<lparr>position := \<lparr>vx = x, vy = 0, vz = 0\<rparr>\<rparr>)]\<rparr>\<rparr>"

text \<open>Every player object has an effect list, so that the sweep does not throw.\<close>

definition full_effects :: "(string \<times> Player) list \<Rightarrow> bool" where
  "full_effects ps = (\<forall>(k, p) \<in> set ps. activePowerUps p \<noteq> None)"

text \<open>What the sweep at time \<open>now\<close> leaves of an entry of the power-ups mapping.\<close>

definition swept :: "int \<Rightarrow> PowerUpData option \<Rightarrow> PowerUpData option" where
  "swept now v =
     (case v of
        None \<Rightarrow> None
      | Some pu \<Rightarrow> if now - timestamp pu > duration pu then None else Some pu)"

section \<open>Properties of the building blocks\<close>

lemmas example_defs = example_user_def example_mode_def example_arena_def example_stroke_def
  initialArena_def onPresence_def presencePlayer_def or_else_def

lemma update_present_keys:
  "map_of ps k = Some v \<Longrightarrow> map fst (AList.update k v' ps) = map fst ps"
  by (auto simp: update_keys dest: map_of_SomeD intro: rev_image_eqI)


lemma damagePlayer_map_of:
  "map_of (damagePlayer d k ps) j =
     (if j = k
      then map_option (\<lambda>p. p\<lparr>health := map_option (\<lambda>h. max 0 (h - d)) (health p)\<rparr>) (map_of ps k)
      else map_of ps j)"
  by (simp add: damagePlayer_def update_conv' split: option.splits)


lemma fold_damagePlayer_map_of:
  "distinct hits \<Longrightarrow>
   map_of (fold (damagePlayer d) hits ps) j =
     (if j \<in> set hits
      then map_option (\<lambda>p. p\<lparr>health := map_option (\<lambda>h. max 0 (h - d)) (health p)\<rparr>) (map_of ps j)
      else map_of ps j)"
  by (induction hits arbitrary: ps) (auto simp: damagePlayer_map_of)



lemma set_update_subset: "set (AList.update k v ps) \<subseteq> insert (k, v) (set ps)"
  by (induction ps) auto



lemma addEffect_tracked:
  "map_of ps pid = Some p \<Longrightarrow> activePowerUps p = Some es \<Longrightarrow>
   addEffect pid e ps = Inr (AList.update pid (p\<lparr>activePowerUps := Some (es @ [e])\<rparr>) ps)"
  by (simp add: addEffect_def)


section \<open>Health stays within its bounds\<close>

lemma players_ok_update:
  "players_ok ub ps \<Longrightarrow> player_ok ub v \<Longrightarrow> players_ok ub (AList.update k v ps)"
  using set_update_subset[of k v ps] by (auto simp: players_ok_def)

lemma players_ok_lookup: "players_ok ub ps \<Longrightarrow> map_of ps k = Some p \<Longrightarrow> player_ok ub p"
  by (auto simp: players_ok_def dest: map_of_SomeD)

lemma damagePlayer_ok:
  assumes "players_ok ub ps" and "ub \<longrightarrow> 0 \<le> d"
  shows "players_ok ub (damagePlayer d k ps)"
proof (cases "map_of ps k")
  case None
  with assms show ?thesis by (simp add: damagePlayer_def)
next
  case (Some p)
  with assms(1) have "player_ok ub p" by (rule players_ok_lookup)
  with assms(2) have "player_ok ub (p\<lparr>health := map_option (\<lambda>h. max 0 (h - d)) (health p)\<rparr>)"
    by (auto simp: player_ok_def split: option.splits)
  with assms(1) Some show ?thesis by (simp add: damagePlayer_def players_ok_update)
qed

lemma fold_damagePlayer_ok:
  "players_ok ub ps \<Longrightarrow> ub \<longrightarrow> 0 \<le> d \<Longrightarrow> players_ok ub (fold (damagePlayer d) hits ps)"
  by (induction hits arbitrary: ps) (simp_all add: damagePlayer_ok)

lemma addStroke_ok: "players_ok ub ps \<Longrightarrow> players_ok ub (addStroke pid s ps)"
proof (cases "map_of ps pid")
  case None
  assume "players_ok ub ps"
  with None show ?thesis by (simp add: addStroke_def)
next
  case (Some p)
  assume ok: "players_ok ub ps"
  then have "player_ok ub p" using Some by (rule players_ok_lookup)
  then have "player_ok ub (p\<lparr>penStrokes := Some ((case penStrokes p of None \<Rightarrow> [] | Some ss \<Rightarrow> ss) @ [s])\<rparr>)"
    by (simp add: player_ok_def split: option.splits)
  with ok Some show ?thesis by (simp add: addStroke_def players_ok_update)
qed

lemma addEffect_ok:
  assumes "players_ok ub ps" and "addEffect pid e ps = Inr ps'"
  shows "players_ok ub ps'"
proof (cases "map_of ps pid")
  case None
  with assms show ?thesis by (simp add: addEffect_def)
next
  case (Some p)
  with assms(2) obtain es where es: "activePowerUps p = Some es"
    and ps': "ps' = AList.update pid (p\<lparr>activePowerUps := Some (es @ [e])\<rparr>) ps"
    by (auto simp: addEffect_def split: option.splits)
  from assms(1) Some have "player_ok ub p" by (rule players_ok_lookup)
  then have "player_ok ub (p\<lparr>activePowerUps := Some (es @ [e])\<rparr>)"
    by (simp add: player_ok_def split: option.splits)
  with assms(1) show ?thesis unfolding ps' by (rule players_ok_update)
qed

lemma sweepPlayers_ok:
  "players_ok ub (fst acc) \<Longrightarrow> sweepPlayers now ks acc = Inr r \<Longrightarrow> players_ok ub (fst r)"
proof (induction ks arbitrary: acc)
  case Nil
  then show ?case by simp
next
  case (Cons k ks)
  show ?case
  proof (cases "map_of (fst acc) k")
    case None
    with Cons show ?thesis by simp
  next
    case (Some player)
    with Cons.prems(2) obtain es where es: "activePowerUps player = Some es"
      by (cases "activePowerUps player") auto
    let ?kept = "filter (\<lambda>pu. endTime pu > now) es"
    show ?thesis
    proof (cases "length ?kept \<noteq> length es")
      case True
      from Cons.prems(1) Some have "player_ok ub player" by (rule players_ok_lookup)
      then have "player_ok ub (player\<lparr>activePowerUps := Some ?kept\<rparr>)"
        by (simp add: player_ok_def split: option.splits)
      with Cons.prems(1)
      have "players_ok ub (fst (AList.update k (player\<lparr>activePowerUps := Some ?kept\<rparr>) (fst acc), True))"
        by (simp add: players_ok_update)
      moreover have "sweepPlayers now ks (AList.update k (player\<lparr>activePowerUps := Some ?kept\<rparr>) (fst acc), True) = Inr r"
        using Cons.prems(2) Some es True by (simp add: Let_def)
      ultimately show ?thesis by (rule Cons.IH)
    next
      case False
      with Cons.prems(2) Some es have "sweepPlayers now ks acc = Inr r" by (simp add: Let_def)
      with Cons.prems(1) show ?thesis by (rule Cons.IH)
    qed
  qed
qed

lemma cleanupExpired_ok:
  assumes "players_ok ub (players s)" and "cleanupExpired now s = Inr s'"
  shows "players_ok ub (players s')"
proof -
  let ?swept = "fold (sweepPowerUp now) (map fst (powerUps s)) (powerUps s, False)"
  from assms(2) obtain r where r: "sweepPlayers now (map fst (players s)) (players s, snd ?swept) = Inr r"
    and s': "s' = (if snd r then s\<lparr>powerUps := fst ?swept, players := fst r\<rparr> else s)"
    by (auto simp: cleanupExpired_def Let_def split: sum.splits prod.splits)
  from assms(1) have "players_ok ub (fst (players s, snd ?swept))" by simp
  from sweepPlayers_ok[OF this r] assms(1) show ?thesis by (simp add: s')
qed

lemma presence_fold_ok:
  "players_ok ub ps \<Longrightarrow>
   players_ok ub (fold (\<lambda>user ps. AList.update (userId user) (presencePlayer user) ps) users ps)"
proof (induction users arbitrary: ps)
  case Nil
  then show ?case by simp
next
  case (Cons u us)
  have "player_ok ub (presencePlayer u)" by (simp add: player_ok_def presencePlayer_def)
  with Cons.prems have "players_ok ub (AList.update (userId u) (presencePlayer u) ps)"
    by (rule players_ok_update)
  then show ?case by (simp add: Cons.IH)
qed

lemma onPresence_ok: "players_ok ub (players (onPresence users s))"
proof -
  have "players_ok ub []" by (simp add: players_ok_def)
  then show ?thesis by (simp add: onPresence_def presence_fold_ok)
qed

lemma handleGameMessage_ok:
  assumes "players_ok ub (players s)" and "handleGameMessage m s = Inr s'"
    and "ub \<longrightarrow> damage_nonneg (Inbound m)"
  shows "players_ok ub (players s')"
proof (cases "data m")
  case (player_move pos rot)
  have "player_ok ub (case map_of (players s) (playerId m) of
           None \<Rightarrow> bare_player pos rot | Some p \<Rightarrow> p\<lparr>position := pos, rotation := rot\<rparr>)"
  proof (cases "map_of (players s) (playerId m)")
    case None
    then show ?thesis by (simp add: player_ok_def bare_player_def)
  next
    case (Some p)
    with assms(1) have "player_ok ub p" by (rule players_ok_lookup)
    with Some show ?thesis by (simp add: player_ok_def split: option.splits)
  qed
  with assms(1,2) player_move show ?thesis
    by (auto simp: handleGameMessage_def intro: players_ok_update)
next
  case (pen_stroke stroke hits d)
  with assms(3) have nn: "ub \<longrightarrow> 0 \<le> d" by simp
  have ok1: "players_ok ub (addStroke (playerId m) stroke (players s))"
    using assms(1) by (rule addStroke_ok)
  have ok2: "players_ok ub (fold (damagePlayer d) hits (addStroke (playerId m) stroke (players s)))"
    using ok1 nn by (rule fold_damagePlayer_ok)
  from assms(2) pen_stroke
  have "players s' = (if d \<noteq> 0 then fold (damagePlayer d) hits (addStroke (playerId m) stroke (players s))
                      else addStroke (playerId m) stroke (players s))"
    by (auto simp: handleGameMessage_def Let_def)
  with ok1 ok2 show ?thesis by simp
next
  case (player_attack target d)
  with assms(3) have nn: "ub \<longrightarrow> 0 \<le> d" by simp
  from assms(2) player_attack have "players s' = damagePlayer d target (players s)"
    by (auto simp: handleGameMessage_def)
  with damagePlayer_ok[OF assms(1) nn] show ?thesis by simp
next
  case (power_up_spawn pu)
  with assms(1,2) show ?thesis by (auto simp: handleGameMessage_def)
next
  case (power_up_collect pid e)
  with assms(1,2) show ?thesis
    by (auto simp: handleGameMessage_def split: sum.splits intro: addEffect_ok)
next
  case other_message
  with assms(1,2) show ?thesis by (auto simp: handleGameMessage_def)
qed

lemma movementEffect_ok:
  assumes "players_ok ub (players (gameState a))"
  shows "players_ok ub (players (gameState (snd (movementEffect a))))"
proof (cases "map_of (players (gameState a)) (currentPlayerId a)")
  case None
  with assms show ?thesis by (simp add: movementEffect_def)
next
  case (Some p)
  with assms have "player_ok ub p" by (rule players_ok_lookup)
  then have "player_ok ub (p\<lparr>position := pos\<rparr>)" for pos by (simp add: player_ok_def split: option.splits)
  with assms Some show ?thesis
    by (auto simp: movementEffect_def Let_def players_ok_update split: prod.splits)
qed

lemma stopDrawing_ok:
  assumes "players_ok ub (players (gameState a))"
  shows "players_ok ub (players (gameState (snd (stopDrawing a))))"
proof (cases "currentStroke a")
  case None
  with assms show ?thesis by (simp add: stopDrawing_def)
next
  case (Some stroke)
  have "0 \<le> min (int (length (points stroke)) * 2) 25" by simp
  with assms Some show ?thesis
    by (auto simp: stopDrawing_def Let_def intro: fold_damagePlayer_ok)
qed

lemma handlePowerUpCollect_ok:
  assumes "players_ok ub (players (gameState a))" and "handlePowerUpCollect now k a = Inr r"
  shows "players_ok ub (players (gameState (snd r)))"
  using assms
  by (auto simp: handlePowerUpCollect_def Let_def split: if_splits option.splits sum.splits
      intro: addEffect_ok)

lemma step_ok:
  assumes "players_ok ub (players (gameState a))" and "step e a = Inr a'"
    and "ub \<longrightarrow> damage_nonneg e"
  shows "players_ok ub (players (gameState a'))"
proof (cases e)
  case (Inbound m)
  with assms(2) obtain s' where s': "handleGameMessage m (gameState a) = Inr s'"
    and a': "a' = a\<lparr>gameState := s'\<rparr>"
    by (cases "handleGameMessage m (gameState a)") auto
  from assms(3) Inbound have "ub \<longrightarrow> damage_nonneg (Inbound m)" by simp
  with assms(1) s' have "players_ok ub (players s')" by (rule handleGameMessage_ok)
  then show ?thesis by (simp add: a')
next
  case (PresenceChange users)
  with assms(2) have "a' = a\<lparr>gameState := onPresence users (gameState a)\<rparr>" by simp
  then show ?thesis by (simp add: onPresence_ok)
next
  case (Setup n)
  with assms(2) have "gameState a' = gameState a" by (auto simp: setupGame_def)
  with assms(1) show ?thesis by simp
next
  case (KeyDown c)
  with assms(2) have "gameState a' = gameState a" by (auto simp: handleKeyDown_def)
  with assms(1) show ?thesis by simp
next
  case (KeyUp c)
  with assms(2) have "gameState a' = gameState a" by (auto simp: handleKeyUp_def)
  with assms(1) show ?thesis by simp
next
  case MovementEffect
  with assms(2) have "a' = snd (movementEffect a)" by simp
  with assms(1) show ?thesis by (simp add: movementEffect_ok)
next
  case (MouseDown now)
  with assms(2) have "gameState a' = gameState a" by (auto simp: startDrawing_def Let_def)
  with assms(1) show ?thesis by simp
next
  case (MouseMove x y now)
  with assms(2) have "gameState a' = gameState a"
    by (auto simp: handleMouseMove_def Let_def split: option.splits)
  with assms(1) show ?thesis by simp
next
  case MouseUp
  with assms(2) have "a' = snd (stopDrawing a)" by simp
  with assms(1) show ?thesis by (simp add: stopDrawing_ok)
next
  case (CollectPowerUp now k)
  with assms(2) obtain r where r: "handlePowerUpCollect now k a = Inr r" and a': "a' = snd r"
    by (cases "handlePowerUpCollect now k a") auto
  from assms(1) r show ?thesis unfolding a' by (rule handlePowerUpCollect_ok)
next
  case (SpawnTimer now t ty rx rz)
  with assms(2) have "players (gameState a') = players (gameState a)"
    by (auto simp: spawnPowerUp_def Let_def)
  with assms(1) show ?thesis by simp
next
  case (CleanupTimer now)
  with assms(2) obtain s' where s': "cleanupExpired now (gameState a) = Inr s'"
    and a': "a' = a\<lparr>gameState := s'\<rparr>"
    by (cases "cleanupExpired now (gameState a)") auto
  from assms(1) s' have "players_ok ub (players s')" by (rule cleanupExpired_ok)
  then show ?thesis by (simp add: a')
qed

lemma run_ok:
  "players_ok ub (players (gameState a)) \<Longrightarrow> run es a = Inr a' \<Longrightarrow>
   (ub \<longrightarrow> (\<forall>e \<in> set es. damage_nonneg e)) \<Longrightarrow> players_ok ub (players (gameState a'))"
proof (induction es arbitrary: a)
  case Nil
  then show ?case by simp
next
  case (Cons e es)
  from Cons.prems(2) obtain b where b: "step e a = Inr b" "run es b = Inr a'"
    by (cases "step e a") auto
  from Cons.prems(3) have nn: "ub \<longrightarrow> damage_nonneg e" "ub \<longrightarrow> (\<forall>e \<in> set es. damage_nonneg e)"
    by simp_all
  from Cons.prems(1) b(1) nn(1) have "players_ok ub (players (gameState b))"
    by (rule step_ok)
  from this b(2) nn(2) show ?case by (rule Cons.IH)
qed

text \<open>
  Claim C1, as amended. In every state that a run of presence snapshots, inbound messages
  and local handlers reaches from the initial state of the component, every player whose
  health is a number has a health that is not negative; and when no inbound
  \<open>pen_stroke\<close> or \<open>player_attack\<close> message of the run carries a negative damage,
  that health is at most the player's \<open>maxHealth\<close>.
\<close>

theorem health_bounds_invariant:
  assumes "run es (initialArena room mode user) = Inr a"
    and "healthOf (gameState a) k = Some h"
  shows "0 \<le> h \<and>
         (list_all damage_nonneg es \<longrightarrow> (\<exists>m. maxHealthOf (gameState a) k = Some m \<and> h \<le> m))"
proof -
  from assms(2) obtain p where p: "map_of (players (gameState a)) k = Some p" "health p = Some h"
    by (auto simp: healthOf_def split: option.splits)
  have init: "players_ok ub (players (gameState (initialArena room mode user)))" for ub
    by (simp add: initialArena_def players_ok_def)
  have "players_ok False (players (gameState a))"
    using init assms(1) by (rule run_ok) simp
  then have "player_ok False p" using p(1) by (rule players_ok_lookup)
  with p(2) have low: "0 \<le> h" by (simp add: player_ok_def)
  have up: "\<exists>m. maxHealthOf (gameState a) k = Some m \<and> h \<le> m" if nn: "list_all damage_nonneg es"
  proof -
    from nn have "True \<longrightarrow> (\<forall>e \<in> set es. damage_nonneg e)" by (simp add: list_all_iff)
    with init assms(1) have "players_ok True (players (gameState a))" by (rule run_ok)
    then have "player_ok True p" using p(1) by (rule players_ok_lookup)
    with p show ?thesis
      by (auto simp: player_ok_def maxHealthOf_def split: option.splits)
  qed
  from low up show ?thesis by blast
qed

lemma example_run_result:
  "run example_run (initialArena ''room'' example_mode ''alice'') =
     Inr (projr (run example_run (initialArena ''room'' example_mode ''alice'')))"
  "healthOf (gameState (projr (run example_run (initialArena ''room'' example_mode ''alice'')))) ''bob'' = Some 0"
  "maxHealthOf (gameState (projr (run example_run (initialArena ''room'' example_mode ''alice'')))) ''bob'' = Some 100"
  by (simp_all add: example_run_def example_defs example_hit_def example_attack_def
      handleGameMessage_def setupGame_def addStroke_def damagePlayer_def healthOf_def maxHealthOf_def)

theorem health_bounds_invariant_witness:
  "run example_run (initialArena ''room'' example_mode ''alice'') =
     Inr (projr (run example_run (initialArena ''room'' example_mode ''alice''))) \<and>
   healthOf (gameState (projr (run example_run (initialArena ''room'' example_mode ''alice''))))
     ''bob'' = Some 0 \<and>
   list_all damage_nonneg example_run \<and>
   (0::int) \<le> 0 \<and>
   maxHealthOf (gameState (projr (run example_run (initialArena ''room'' example_mode ''alice''))))
     ''bob'' = Some 100"
proof -
  have nn: "list_all damage_nonneg example_run"
    by (simp add: example_run_def example_hit_def example_attack_def)
  from health_bounds_invariant [OF example_run_result(1,2)] nn example_run_result
  show ?thesis by auto
qed

text \<open>
  The claim as stated fails for an inbound message with a negative damage, which the
  reducer applies as it is: an attack of damage \<open>-50\<close> takes bob from 100 to 150,
  above his \<open>maxHealth\<close> of 100.
\<close>

theorem negative_damage_counterexample:
  "map_sum id (\<lambda>a. (healthOf (gameState a) ''bob'', maxHealthOf (gameState a) ''bob''))
     (run [PresenceChange [example_user ''alice'' 0.5 0.5, example_user ''bob'' 0.55 0.5],
           Inbound (example_attack ''bob'' (- 50))]
        (initialArena ''room'' example_mode ''alice''))
   = Inr (Some 150, Some 100)"
  by (simp add: example_defs example_attack_def handleGameMessage_def damagePlayer_def
      healthOf_def maxHealthOf_def)

section \<open>Damage of a pen\_stroke message\<close>




section \<open>The collision resolver\<close>

lemma sqrt_hit_radius: "sqrt x < 0.8 \<longleftrightarrow> x < 0.64"
proof -
  have e: "sqrt (0.64) = (0.8::real)"
    by (rule real_sqrt_unique) (simp_all add: power2_eq_square)
  have "sqrt x < sqrt 0.64 \<longleftrightarrow> x < 0.64" by (rule real_sqrt_less_iff)
  then show ?thesis unfolding e .
qed

lemma distance_hit_radius:
  "distance a b < 0.8 \<longleftrightarrow> (vx a - vx b)\<^sup>2 + (vy a - vy b)\<^sup>2 + (vz a - vz b)\<^sup>2 < 0.64"
  unfolding distance_def by (rule sqrt_hit_radius)

lemma fold_checkPoint_set:
  "set (fold (checkPoint player) pts hit) =
     set hit \<union> (if \<exists>pt \<in> set pts. distance pt (position player) < 0.8 then {player_id player} else {})"
  by (induction pts arbitrary: hit) (auto simp: checkPoint_def)

lemma fold_checkPoint_distinct:
  "distinct hit \<Longrightarrow> distinct (fold (checkPoint player) pts hit)"
  by (induction pts arbitrary: hit) (auto simp: checkPoint_def)

lemma checkPlayer_set:
  "set (checkPlayer cur pts player hit) =
     set hit \<union> (if player_id player \<noteq> Some cur \<and> \<not> health_le_0 player \<and>
                     (\<exists>pt \<in> set pts. distance pt (position player) < 0.8)
                  then {player_id player} else {})"
  by (simp add: checkPlayer_def fold_checkPoint_set)

lemma checkPlayer_distinct: "distinct hit \<Longrightarrow> distinct (checkPlayer cur pts player hit)"
  by (simp add: checkPlayer_def fold_checkPoint_distinct)

lemma fold_checkPlayer_set:
  "set (fold (checkPlayer cur pts) pls hit) =
     set hit \<union> {player_id p | p. p \<in> set pls \<and> player_id p \<noteq> Some cur \<and> \<not> health_le_0 p \<and>
                    (\<exists>pt \<in> set pts. distance pt (position p) < 0.8)}"
proof (induction pls arbitrary: hit)
  case Nil
  show ?case by simp
next
  case (Cons q pls)
  show ?case unfolding fold_simps Cons.IH checkPlayer_set by auto
qed

lemma fold_checkPlayer_distinct:
  "distinct hit \<Longrightarrow> distinct (fold (checkPlayer cur pts) pls hit)"
  by (induction pls arbitrary: hit) (simp_all add: checkPlayer_distinct)

lemma checkStrokeCollisions_distinct: "distinct (checkStrokeCollisions ps cur stroke)"
  by (simp add: checkStrokeCollisions_def Let_def fold_checkPlayer_distinct)

lemma checkStrokeCollisions_short:
  "length (points stroke) < 2 \<Longrightarrow> checkStrokeCollisions ps cur stroke = []"
  by (simp add: checkStrokeCollisions_def)

lemma checkStrokeCollisions_set:
  "2 \<le> length (points stroke) \<Longrightarrow>
   set (checkStrokeCollisions ps cur stroke) =
     {player_id p | p. p \<in> snd ` set ps \<and> player_id p \<noteq> Some cur \<and> \<not> health_le_0 p \<and>
        (\<exists>pt \<in> set (points stroke). distance pt (position p) < 0.8)}"
  by (simp add: checkStrokeCollisions_def Let_def fold_checkPlayer_set)

lemma tracked_struck_iff:
  assumes "tracked_players ps" and "2 \<le> length (points stroke)"
  shows "v \<in> set (checkStrokeCollisions ps cur stroke) \<longleftrightarrow>
         (\<exists>k p. v = Some k \<and> map_of ps k = Some p \<and> k \<noteq> cur \<and> (\<exists>h. health p = Some h \<and> 0 < h) \<and>
            (\<exists>pt \<in> set (points stroke). distance pt (position p) < 0.8))"
proof
  assume "v \<in> set (checkStrokeCollisions ps cur stroke)"
  then have "v \<in> {player_id p | p. p \<in> snd ` set ps \<and> player_id p \<noteq> Some cur \<and> \<not> health_le_0 p \<and>
        (\<exists>pt \<in> set (points stroke). distance pt (position p) < 0.8)}"
    unfolding checkStrokeCollisions_set[OF assms(2)] .
  then obtain p where pin: "p \<in> snd ` set ps" and v: "v = player_id p"
    and other: "player_id p \<noteq> Some cur" and alive: "\<not> health_le_0 p"
    and near: "\<exists>pt \<in> set (points stroke). distance pt (position p) < 0.8"
    by blast
  from pin obtain k where kp: "(k, p) \<in> set ps" by force
  from assms(1) kp have idp: "player_id p = Some k" and hp: "health p \<noteq> None"
    and m: "map_of ps k = Some p"
    by (auto simp: tracked_players_def)
  from hp alive have "\<exists>h. health p = Some h \<and> 0 < h"
    by (cases "health p") (auto simp: health_le_0_def)
  with v idp m other near show "\<exists>k p. v = Some k \<and> map_of ps k = Some p \<and> k \<noteq> cur \<and>
      (\<exists>h. health p = Some h \<and> 0 < h) \<and> (\<exists>pt \<in> set (points stroke). distance pt (position p) < 0.8)"
    by auto
next
  assume "\<exists>k p. v = Some k \<and> map_of ps k = Some p \<and> k \<noteq> cur \<and> (\<exists>h. health p = Some h \<and> 0 < h) \<and>
            (\<exists>pt \<in> set (points stroke). distance pt (position p) < 0.8)"
  then obtain k p h where v: "v = Some k" and m: "map_of ps k = Some p" and other: "k \<noteq> cur"
    and h: "health p = Some h" "0 < h"
    and near: "\<exists>pt \<in> set (points stroke). distance pt (position p) < 0.8"
    by auto
  from m have kp: "(k, p) \<in> set ps" by (rule map_of_SomeD)
  with assms(1) have idp: "player_id p = Some k" by (auto simp: tracked_players_def)
  from h have alive: "\<not> health_le_0 p" by (simp add: health_le_0_def)
  from kp have "p \<in> snd ` set ps" by force
  moreover from idp other have "player_id p \<noteq> Some cur" by simp
  moreover from idp v have "v = player_id p" by simp
  ultimately have "v = player_id p \<and> p \<in> snd ` set ps \<and> player_id p \<noteq> Some cur \<and> \<not> health_le_0 p \<and>
        (\<exists>pt \<in> set (points stroke). distance pt (position p) < 0.8)"
    using alive near by simp
  then show "v \<in> set (checkStrokeCollisions ps cur stroke)"
    unfolding checkStrokeCollisions_set[OF assms(2)] by (intro CollectI exI[of _ p])
qed


lemma distance_hit_eval:
  "distance a b * 5 < 4 \<longleftrightarrow>
     ((vx a - vx b)\<^sup>2 + (vy a - vy b)\<^sup>2 + (vz a - vz b)\<^sup>2) * 25 < 16"
  using distance_hit_radius[of a b] by simp

lemmas collision_eval = checkStrokeCollisions_def checkPlayer_def checkPoint_def
  health_le_0_def distance_hit_eval power2_eq_square example_point_def

lemma example_tracked: "tracked_players (players (gameState example_arena))"
  by (simp add: tracked_players_def example_defs)


section \<open>Damage of a finished stroke\<close>

lemma tracked_hits_Some:
  assumes "tracked_players ps"
  shows "None \<notin> set (checkStrokeCollisions ps cur stroke)"
proof (cases "2 \<le> length (points stroke)")
  case True
  from tracked_struck_iff[OF assms True, of None cur] show ?thesis by simp
next
  case False
  then show ?thesis by (simp add: checkStrokeCollisions_short)
qed

lemma property_key_keys:
  assumes "None \<notin> set hits" and "distinct hits"
  shows "distinct (map property_key hits)" and "k \<in> set (map property_key hits) \<longleftrightarrow> Some k \<in> set hits"
proof -
  have "inj_on property_key (set hits)"
  proof (rule inj_onI)
    fix u v assume "u \<in> set hits" "v \<in> set hits" "property_key u = property_key v"
    with assms(1) show "u = v" by (cases u; cases v) (auto simp: property_key_def)
  qed
  with assms(2) show "distinct (map property_key hits)" by (simp add: distinct_map)
  show "k \<in> set (map property_key hits) \<longleftrightarrow> Some k \<in> set hits"
  proof
    assume "k \<in> set (map property_key hits)"
    then obtain v where v: "v \<in> set hits" "k = property_key v" by auto
    with assms(1) show "Some k \<in> set hits" by (cases v) (auto simp: property_key_def)
  next
    assume "Some k \<in> set hits"
    then have "property_key (Some k) \<in> set (map property_key hits)" by simp
    then show "k \<in> set (map property_key hits)" by (simp add: property_key_def)
  qed
qed

text \<open>
  Claim C4. When a stroke of \<open>N\<close> points is released on a connected arena whose players
  are \<open>Player\<close> objects, the one message published is a \<open>pen_stroke\<close> with the
  struck list and the damage \<open>min (N * 2) 25\<close>, which is 10 for 5 points; locally
  every struck player with health \<open>h\<close> ends with \<open>max 0 (h - damage)\<close>, the health of
  every player that is not struck is unchanged, and in particular so is the health of every
  player from whose position no point of the stroke is at a distance below 0.8.
\<close>

theorem stopDrawing_damage:
  assumes "currentStroke a = Some stroke" and "channel a"
    and "tracked_players (players (gameState a))"
  shows "let hits = checkStrokeCollisions (players (gameState a)) (currentPlayerId a) stroke;
             damage = min (int (length (points stroke)) * 2) 25;
             s = gameState a;
             s' = gameState (snd (stopDrawing a))
         in fst (stopDrawing a) = [publish_pen_stroke (currentPlayerId a) stroke hits damage] \<and>
            (length (points stroke) = 5 \<longrightarrow> damage = 10) \<and>
            (\<forall>k h. Some k \<in> set hits \<and> healthOf s k = Some h \<longrightarrow>
                   healthOf s' k = Some (max 0 (h - damage))) \<and>
            (\<forall>k. Some k \<notin> set hits \<longrightarrow> healthOf s' k = healthOf s k) \<and>
            (\<forall>k p. map_of (players s) k = Some p \<and>
                   (\<forall>pt \<in> set (points stroke). \<not> distance pt (position p) < 0.8) \<longrightarrow>
                   healthOf s' k = healthOf s k)"
proof -
  let ?ps = "players (gameState a)"
  let ?hits = "checkStrokeCollisions ?ps (currentPlayerId a) stroke"
  let ?d = "min (int (length (points stroke)) * 2) 25"
  let ?s' = "gameState (snd (stopDrawing a))"
  have pub: "fst (stopDrawing a) = [publish_pen_stroke (currentPlayerId a) stroke ?hits ?d]"
    using assms(1,2) by (simp add: stopDrawing_def Let_def)
  have pl: "players ?s' =
      (if ?hits \<noteq> [] then fold (damagePlayer ?d) (map property_key ?hits) ?ps else ?ps)"
    using assms(1,2) by (simp add: stopDrawing_def Let_def)
  have five: "length (points stroke) = 5 \<longrightarrow> ?d = 10" by simp
  have noNone: "None \<notin> set ?hits" using assms(3) by (rule tracked_hits_Some)
  have dist: "distinct ?hits" by (rule checkStrokeCollisions_distinct)
  note pk = property_key_keys[OF noNone dist]
  have new: "map_of (players ?s') k =
      (if Some k \<in> set ?hits
       then map_option (\<lambda>p. p\<lparr>health := map_option (\<lambda>h. max 0 (h - ?d)) (health p)\<rparr>) (map_of ?ps k)
       else map_of ?ps k)" for k
  proof (cases "?hits = []")
    case True
    then show ?thesis by (simp add: pl)
  next
    case False
    then show ?thesis by (simp only: pl if_True fold_damagePlayer_map_of[OF pk(1)] pk(2) simp_thms)
  qed
  have listed: "healthOf ?s' k = Some (max 0 (h - ?d))"
    if "Some k \<in> set ?hits" "healthOf (gameState a) k = Some h" for k h
    using that by (auto simp: healthOf_def new split: option.splits)
  have unlisted: "healthOf ?s' k = healthOf (gameState a) k" if "Some k \<notin> set ?hits" for k
    using that by (simp add: healthOf_def new)
  have far: "healthOf ?s' k = healthOf (gameState a) k"
    if m: "map_of ?ps k = Some p"
      and f: "\<forall>pt \<in> set (points stroke). \<not> distance pt (position p) < 0.8" for k p
  proof -
    have "Some k \<notin> set ?hits"
    proof (cases "2 \<le> length (points stroke)")
      case True
      show ?thesis
      proof
        assume "Some k \<in> set ?hits"
        with tracked_struck_iff[OF assms(3) True, of "Some k" "currentPlayerId a"]
        obtain p' where "map_of ?ps k = Some p'"
          "\<exists>pt \<in> set (points stroke). distance pt (position p') < 0.8"
          by auto
        with m f show False by auto
      qed
    next
      case False
      then show ?thesis by (simp add: checkStrokeCollisions_short)
    qed
    then show ?thesis by (rule unlisted)
  qed
  from pub five listed unlisted far show ?thesis
    unfolding Let_def by blast
qed

theorem stopDrawing_damage_witness:
  "currentStroke example_drawing = Some example_stroke5 \<and> channel example_drawing \<and>
   tracked_players (players (gameState example_drawing)) \<and>
   length (points example_stroke5) = 5 \<and>
   fst (stopDrawing example_drawing) =
     [publish_pen_stroke ''alice'' example_stroke5 [Some ''bob'', Some ''dave''] 10] \<and>
   healthOf (gameState (snd (stopDrawing example_drawing))) ''bob'' = Some 90 \<and>
   healthOf (gameState (snd (stopDrawing example_drawing))) ''dave'' = Some 90 \<and>
   healthOf (gameState (snd (stopDrawing example_drawing))) ''alice'' = Some 100 \<and>
   healthOf (gameState (snd (stopDrawing example_drawing))) ''carol'' = Some 100"
proof -
  have cs: "currentStroke example_drawing = Some example_stroke5"
    and ch: "channel example_drawing"
    and cur: "currentPlayerId example_drawing = ''alice''"
    by (simp_all add: example_drawing_def example_defs)
  have gs: "gameState example_drawing = gameState example_arena"
    by (simp add: example_drawing_def)
  have tr: "tracked_players (players (gameState example_drawing))"
    unfolding gs by (rule example_tracked)
  have len: "length (points example_stroke5) = 5"
    by (simp add: example_stroke5_def example_stroke_def)
  have ev: "checkStrokeCollisions (players (gameState example_drawing)) ''alice'' example_stroke5 =
              [Some ''bob'', Some ''dave'']"
    unfolding gs by (simp add: example_stroke5_def example_defs collision_eval)
  have h: "healthOf (gameState example_drawing) ''bob'' = Some 100"
       "healthOf (gameState example_drawing) ''dave'' = Some 100"
       "healthOf (gameState example_drawing) ''alice'' = Some 100"
       "healthOf (gameState example_drawing) ''carol'' = Some 100"
    unfolding gs by (simp_all add: healthOf_def example_defs)
  have carol_at: "map_of (players (gameState example_drawing)) ''carol'' =
      Some (presencePlayer (example_user ''carol'' 0.9 0.9))"
    unfolding gs by (simp add: example_defs)
  have carol_far: "\<forall>pt \<in> set (points example_stroke5).
      \<not> distance pt (position (presencePlayer (example_user ''carol'' 0.9 0.9))) < 0.8"
    by (simp add: example_stroke5_def example_defs collision_eval)
  note T = stopDrawing_damage [OF cs ch tr, unfolded Let_def cur ev len]
  from T have pub: "fst (stopDrawing example_drawing) =
      [publish_pen_stroke ''alice'' example_stroke5 [Some ''bob'', Some ''dave''] 10]"
    by simp
  from T h(1) have bob: "healthOf (gameState (snd (stopDrawing example_drawing))) ''bob'' = Some 90"
    by simp
  from T h(2) have dave: "healthOf (gameState (snd (stopDrawing example_drawing))) ''dave'' = Some 90"
    by simp
  from T h(3) have alice: "healthOf (gameState (snd (stopDrawing example_drawing))) ''alice'' = Some 100"
    by simp
  from T have "map_of (players (gameState example_drawing)) ''carol'' =
        Some (presencePlayer (example_user ''carol'' 0.9 0.9)) \<and>
      (\<forall>pt \<in> set (points example_stroke5).
        \<not> distance pt (position (presencePlayer (example_user ''carol'' 0.9 0.9))) < 0.8) \<longrightarrow>
      healthOf (gameState (snd (stopDrawing example_drawing))) ''carol'' =
        healthOf (gameState example_drawing) ''carol''"
    by blast
  with carol_at carol_far h(4)
  have carol: "healthOf (gameState (snd (stopDrawing example_drawing))) ''carol'' = Some 100"
    by simp
  from cs ch tr len pub bob dave alice carol show ?thesis by simp
qed

section \<open>A second collection of the same power-up\<close>












section \<open>Messages that reference an identity not in the state\<close>





text \<open>
  The \<open>player_move\<close> case has no test of \<open>prev.players[message.playerId]\<close>: for an
  untracked id it adds an object with a position and a rotation only.
\<close>

lemma player_move_untracked:
  assumes "data m = player_move pos rot" and "map_of (players s) (playerId m) = None"
  shows "handleGameMessage m s =
           Inr (s\<lparr>players := players s @ [(playerId m, bare_player pos rot)]\<rparr>)"
proof -
  have "AList.update k v ps = ps @ [(k, v)]" if "map_of ps k = None" for k :: string and v :: Player and ps
    using that by (induction ps) (auto split: if_splits)
  with assms show ?thesis by (simp add: handleGameMessage_def)
qed






section \<open>The movement effect\<close>

lemma candidate_moved: "snd (candidate ks pos) = movement_key_held ks"
  by (simp add: candidate_def movement_key_held_def Let_def split: prod.splits)

text \<open>
  Claim C7, as amended. A run of the movement effect publishes a \<open>player_move\<close> message
  exactly when the current player is tracked, the channel is set and one of the movement
  keys is held; with no movement key held it publishes nothing and leaves the state as it
  is. The message carries the clamped candidate position, which also becomes the player's
  position, and the player's rotation. Whenever the position changes a message is
  published; the converse is not claimed.
\<close>

theorem movement_message:
  "(fst (movementEffect a) \<noteq> [] \<longleftrightarrow>
      map_of (players (gameState a)) (currentPlayerId a) \<noteq> None \<and> channel a \<and>
      movement_key_held (keys a)) \<and>
   (\<not> movement_key_held (keys a) \<longrightarrow> movementEffect a = ([], a)) \<and>
   (\<forall>p. map_of (players (gameState a)) (currentPlayerId a) = Some p \<and> channel a \<and>
        movement_key_held (keys a) \<longrightarrow>
        fst (movementEffect a) =
          [publish_player_move (currentPlayerId a) (fst (candidate (keys a) (position p)))
             (rotation p)] \<and>
        positionOf (gameState (snd (movementEffect a))) (currentPlayerId a) =
          Some (fst (candidate (keys a) (position p)))) \<and>
   (positionOf (gameState (snd (movementEffect a))) (currentPlayerId a) \<noteq>
      positionOf (gameState a) (currentPlayerId a) \<longrightarrow> fst (movementEffect a) \<noteq> [])"
proof (cases "map_of (players (gameState a)) (currentPlayerId a)")
  case None
  then show ?thesis by (simp add: movementEffect_def)
next
  case (Some p)
  obtain np mv where c: "candidate (keys a) (position p) = (np, mv)" by force
  with candidate_moved[of "keys a" "position p"] have mv: "mv = movement_key_held (keys a)" by simp
  show ?thesis
  proof (cases "channel a \<and> mv")
    case True
    with Some c mv show ?thesis
      by (simp add: movementEffect_def positionOf_def update_conv')
  next
    case False
    with Some c mv show ?thesis
      by (auto simp: movementEffect_def)
  qed
qed

lemma ticks_numeral: "ticks (numeral n) a = ticks (pred_numeral n) (snd (movementEffect a))"
  by (simp add: numeral_eq_Suc)

lemma example_walker_start: "example_walker = example_walker_at (- 4.95)"
  by (simp add: example_walker_at_def example_walker_def handleKeyDown_def example_defs)

lemma example_walker_facts:
  "currentPlayerId (example_walker_at x) = ''alice''"
  "keys (example_walker_at x) ''KeyA''"
  "movement_key_held (keys (example_walker_at x))"
  "channel (example_walker_at x)"
  "positionOf (gameState (example_walker_at x)) ''alice'' = Some \<lparr>vx = x, vy = 0, vz = 0\<rparr>"
  by (simp_all add: example_walker_at_def example_walker_def handleKeyDown_def initialArena_def
      positionOf_def movement_key_held_def)

lemma example_walker_step:
  "movementEffect (example_walker_at x) =
     ([publish_player_move ''alice'' \<lparr>vx = boundary (x - 0.1), vy = 0, vz = 0\<rparr>
         \<lparr>vx = 0, vy = 0, vz = 0\<rparr>],
      example_walker_at (boundary (x - 0.1)))"
  by (simp add: example_walker_at_def example_walker_def handleKeyDown_def example_defs
      movementEffect_def candidate_def Let_def boundary_def)

theorem movement_message_witness:
  "movement_key_held (keys example_walker) \<and>
   positionOf (gameState example_walker) ''alice'' = Some \<lparr>vx = - 4.95, vy = 0, vz = 0\<rparr> \<and>
   fst (movementEffect example_walker) =
     [publish_player_move ''alice'' \<lparr>vx = - 5.05, vy = 0, vz = 0\<rparr> \<lparr>vx = 0, vy = 0, vz = 0\<rparr>] \<and>
   positionOf (gameState (snd (movementEffect example_walker))) ''alice'' =
     Some \<lparr>vx = - 5.05, vy = 0, vz = 0\<rparr> \<and>
   \<not> movement_key_held (keys example_arena) \<and>
   movementEffect example_arena = ([], example_arena)"
proof -
  note T = movement_message
  note f = example_walker_facts
  let ?p = "(presencePlayer (example_user ''alice'' 0.005 0.5))\<lparr>position := \<lparr>vx = - 4.95, vy = 0, vz = 0\<rparr>\<rparr>"
  have cur: "currentPlayerId example_walker = ''alice''"
    unfolding example_walker_start by (rule f(1))
  have 1: "movement_key_held (keys example_walker)"
    unfolding example_walker_start by (rule f(3))
  have ch: "channel example_walker"
    unfolding example_walker_start by (rule f(4))
  have before: "positionOf (gameState example_walker) ''alice'' = Some \<lparr>vx = - 4.95, vy = 0, vz = 0\<rparr>"
    unfolding example_walker_start by (rule f(5))
  have p: "map_of (players (gameState example_walker)) (currentPlayerId example_walker) = Some ?p"
    unfolding cur unfolding example_walker_start by (simp add: example_walker_at_def)
  have c: "fst (candidate (keys example_walker) (position ?p)) = \<lparr>vx = - 5.05, vy = 0, vz = 0\<rparr>"
    by (simp add: example_walker_def handleKeyDown_def initialArena_def candidate_def Let_def
        boundary_def)
  have r: "rotation ?p = \<lparr>vx = 0, vy = 0, vz = 0\<rparr>" by (simp add: presencePlayer_def)
  from T [of example_walker, THEN conjunct2, THEN conjunct2, THEN conjunct1, rule_format,
          OF conjI [OF p conjI [OF ch 1]]]
  have 2: "fst (movementEffect example_walker) =
     [publish_player_move ''alice'' \<lparr>vx = - 5.05, vy = 0, vz = 0\<rparr> \<lparr>vx = 0, vy = 0, vz = 0\<rparr>]"
    and after: "positionOf (gameState (snd (movementEffect example_walker))) ''alice'' =
     Some \<lparr>vx = - 5.05, vy = 0, vz = 0\<rparr>"
    unfolding cur c r by simp_all
  have 3: "\<not> movement_key_held (keys example_arena)"
    by (simp add: movement_key_held_def example_arena_def initialArena_def)
  from T [of example_arena, THEN conjunct2, THEN conjunct1] 3
  have 4: "movementEffect example_arena = ([], example_arena)" by (rule mp)
  from T [of example_walker, THEN conjunct1] 2
  have "map_of (players (gameState example_walker)) (currentPlayerId example_walker) \<noteq> None \<and>
        channel example_walker \<and> movement_key_held (keys example_walker)"
    by simp
  have "positionOf (gameState (snd (movementEffect example_walker))) (currentPlayerId example_walker) \<noteq>
        positionOf (gameState example_walker) (currentPlayerId example_walker)"
    unfolding cur after before by simp
  with T [of example_walker, THEN conjunct2, THEN conjunct2, THEN conjunct2]
  have "fst (movementEffect example_walker) \<noteq> []" by (rule mp)
  show ?thesis
    apply (intro conjI)
         apply (rule 1)
        apply (rule before)
       apply (rule 2)
      apply (rule after)
     apply (rule 3)
    apply (rule 4)
    done
qed

text \<open>
  The claim C7 as stated fails at the wall: after 31 runs with the key A held alice is at
  \<open>x = -8\<close>; the next run publishes a \<open>player_move\<close> message although the clamped
  position is the one she already has.
\<close>

theorem movement_at_wall_counterexample:
  "movement_key_held (keys (ticks 31 example_walker)) \<and>
   positionOf (gameState (ticks 31 example_walker)) ''alice'' = Some \<lparr>vx = - 8, vy = 0, vz = 0\<rparr> \<and>
   fst (movementEffect (ticks 31 example_walker)) =
     [publish_player_move ''alice'' \<lparr>vx = - 8, vy = 0, vz = 0\<rparr> \<lparr>vx = 0, vy = 0, vz = 0\<rparr>] \<and>
   positionOf (gameState (snd (movementEffect (ticks 31 example_walker)))) ''alice'' =
     Some \<lparr>vx = - 8, vy = 0, vz = 0\<rparr>"
proof -
  have w: "ticks 31 example_walker = example_walker_at (- 8)"
    by (simp add: example_walker_start ticks_numeral example_walker_step boundary_def)
  have s: "movementEffect (example_walker_at (- 8)) =
     ([publish_player_move ''alice'' \<lparr>vx = - 8, vy = 0, vz = 0\<rparr> \<lparr>vx = 0, vy = 0, vz = 0\<rparr>],
      example_walker_at (- 8))"
    unfolding example_walker_step by (simp add: boundary_def)
  show ?thesis
    unfolding w s fst_conv snd_conv
    by (intro conjI example_walker_facts refl)
qed

section \<open>The arena boundary\<close>

lemma boundary_range: "- 8 \<le> boundary v" "boundary v \<le> 8"
  by (simp_all add: boundary_def)

lemma candidate_range:
  "- 8 \<le> vx (fst (candidate ks pos))" "vx (fst (candidate ks pos)) \<le> 8"
  "- 8 \<le> vz (fst (candidate ks pos))" "vz (fst (candidate ks pos)) \<le> 8"
  "vy (fst (candidate ks pos)) = vy pos"
  by (simp_all add: candidate_def Let_def boundary_range split: prod.splits)

lemma candidate_axes:
  "vx (fst (candidate ks pos)) =
     boundary (vx pos - (if ks ''KeyA'' \<or> ks ''ArrowLeft'' then 0.1 else 0)
                      + (if ks ''KeyD'' \<or> ks ''ArrowRight'' then 0.1 else 0))"
  "vz (fst (candidate ks pos)) =
     boundary (vz pos - (if ks ''KeyW'' \<or> ks ''ArrowUp'' then 0.1 else 0)
                      + (if ks ''KeyS'' \<or> ks ''ArrowDown'' then 0.1 else 0))"
  by (simp_all add: candidate_def Let_def split: prod.splits)

lemma movementEffect_currentPlayerId: "currentPlayerId (snd (movementEffect a)) = currentPlayerId a"
  by (simp add: movementEffect_def Let_def split: option.splits prod.splits)

lemma movementEffect_keeps_left_bound:
  assumes "positionOf (gameState a) (currentPlayerId a) = Some pos" and "- 8 \<le> vx pos"
  shows "\<exists>q. positionOf (gameState (snd (movementEffect a))) (currentPlayerId a) = Some q \<and> - 8 \<le> vx q"
proof -
  from assms(1) obtain p where p: "map_of (players (gameState a)) (currentPlayerId a) = Some p"
    and pos: "position p = pos"
    by (auto simp: positionOf_def split: option.splits)
  obtain np mv where c: "candidate (keys a) (position p) = (np, mv)" by force
  with candidate_range(1)[of "keys a" "position p"] have np: "- 8 \<le> vx np" by simp
  show ?thesis
  proof (cases "channel a \<and> mv")
    case True
    with p c np show ?thesis
      by (simp add: movementEffect_def positionOf_def update_conv')
  next
    case False
    with p c have "snd (movementEffect a) = a" by (auto simp: movementEffect_def)
    with assms show ?thesis by simp
  qed
qed

lemma ticks_currentPlayerId: "currentPlayerId (ticks n a) = currentPlayerId a"
  by (induction n arbitrary: a) (simp_all add: movementEffect_currentPlayerId)

lemma ticks_keep_left_bound:
  "positionOf (gameState a) (currentPlayerId a) = Some pos \<Longrightarrow> - 8 \<le> vx pos \<Longrightarrow>
   \<exists>q. positionOf (gameState (ticks n a)) (currentPlayerId a) = Some q \<and> - 8 \<le> vx q"
proof (induction n arbitrary: a pos)
  case 0
  then show ?case by simp
next
  case (Suc n)
  from movementEffect_keeps_left_bound[OF Suc.prems]
  obtain q where q: "positionOf (gameState (snd (movementEffect a))) (currentPlayerId a) = Some q"
    "- 8 \<le> vx q" by blast
  from q(1) have "positionOf (gameState (snd (movementEffect a)))
      (currentPlayerId (snd (movementEffect a))) = Some q"
    by (simp add: movementEffect_currentPlayerId)
  from Suc.IH[OF this q(2)] show ?case by (simp add: movementEffect_currentPlayerId)
qed

text \<open>
  Claim C8. The candidate position is the current one moved by 0.1 along x for the left and
  right keys and along z for the forward and back keys, each of the two coordinates clamped
  on its own to \<open>[-8, 8]\<close>, and y is unchanged. Starting from a position with
  \<open>x \<ge> -8\<close>, as \<open>x = -7.95\<close> is, any number of runs of the movement effect, with
  whatever keys held, leaves the current player at a position with \<open>x \<ge> -8\<close>.
\<close>

theorem movement_clamped:
  "vx (fst (candidate ks v)) =
     boundary (vx v - (if ks ''KeyA'' \<or> ks ''ArrowLeft'' then 0.1 else 0)
                    + (if ks ''KeyD'' \<or> ks ''ArrowRight'' then 0.1 else 0)) \<and>
   vz (fst (candidate ks v)) =
     boundary (vz v - (if ks ''KeyW'' \<or> ks ''ArrowUp'' then 0.1 else 0)
                    + (if ks ''KeyS'' \<or> ks ''ArrowDown'' then 0.1 else 0)) \<and>
   vy (fst (candidate ks v)) = vy v \<and>
   - 8 \<le> boundary w \<and> boundary w \<le> 8 \<and>
   (positionOf (gameState a) (currentPlayerId a) = Some pos \<and> - 8 \<le> vx pos \<longrightarrow>
      (\<exists>q. positionOf (gameState (ticks n a)) (currentPlayerId a) = Some q \<and> - 8 \<le> vx q))"
  using candidate_axes[of ks v] candidate_range(5)[of ks v] boundary_range[of w]
    ticks_keep_left_bound[of a pos n]
  by simp

lemma example_walker_30: "ticks 30 example_walker = example_walker_at (- 7.95)"
  by (simp add: example_walker_start ticks_numeral example_walker_step boundary_def)

lemma example_walker_at_wall: "ticks 3 (example_walker_at (- 7.95)) = example_walker_at (- 8)"
  by (simp add: ticks_numeral example_walker_step boundary_def)

theorem movement_clamped_witness:
  "positionOf (gameState (ticks 30 example_walker)) (currentPlayerId (ticks 30 example_walker)) =
     Some \<lparr>vx = - 7.95, vy = 0, vz = 0\<rparr> \<and>
   keys (ticks 30 example_walker) ''KeyA'' \<and>
   positionOf (gameState (ticks 3 (ticks 30 example_walker))) (currentPlayerId (ticks 30 example_walker)) =
     Some \<lparr>vx = - 8, vy = 0, vz = 0\<rparr> \<and>
   (\<exists>q. positionOf (gameState (ticks 3 (ticks 30 example_walker)))
          (currentPlayerId (ticks 30 example_walker)) = Some q \<and> - 8 \<le> vx q)"
proof -
  note f = example_walker_facts
  have start: "positionOf (gameState (ticks 30 example_walker)) (currentPlayerId (ticks 30 example_walker)) =
     Some \<lparr>vx = - 7.95, vy = 0, vz = 0\<rparr>"
    unfolding example_walker_30 f(1) by (rule f(5))
  have k: "keys (ticks 30 example_walker) ''KeyA''"
    unfolding example_walker_30 by (rule f(2))
  have after: "positionOf (gameState (ticks 3 (ticks 30 example_walker)))
      (currentPlayerId (ticks 30 example_walker)) = Some \<lparr>vx = - 8, vy = 0, vz = 0\<rparr>"
    unfolding example_walker_30 example_walker_at_wall f(1) by (rule f(5))
  have "- 8 \<le> vx \<lparr>vx = - 7.95, vy = 0, vz = 0\<rparr>" by simp
  with movement_clamped [of _ _ _ "ticks 30 example_walker" "\<lparr>vx = - 7.95, vy = 0, vz = 0\<rparr>" 3] start
  have "\<exists>q. positionOf (gameState (ticks 3 (ticks 30 example_walker)))
          (currentPlayerId (ticks 30 example_walker)) = Some q \<and> - 8 \<le> vx q"
    by blast
  with start k after show ?thesis by blast
qed

section \<open>The expiry sweep\<close>

lemma sweepPowerUp_map_of:
  "map_of (fst (sweepPowerUp now k acc)) j =
     (if j = k then swept now (map_of (fst acc) k) else map_of (fst acc) j)"
  by (simp add: sweepPowerUp_def swept_def delete_conv' split: option.splits)

lemma swept_idem: "swept now (swept now v) = swept now v"
  by (simp add: swept_def split: option.splits)

lemma fold_sweepPowerUp_map_of:
  "map_of (fst (fold (sweepPowerUp now) ks acc)) j =
     (if j \<in> set ks then swept now (map_of (fst acc) j) else map_of (fst acc) j)"
proof (induction ks arbitrary: acc)
  case Nil
  show ?case by simp
next
  case (Cons k ks)
  show ?case
    by (simp add: Cons.IH sweepPowerUp_map_of swept_idem)
qed

lemma sweepPowerUp_unchanged:
  "\<not> snd (sweepPowerUp now k acc) \<Longrightarrow> sweepPowerUp now k acc = acc"
  by (auto simp: sweepPowerUp_def split: option.splits if_splits)

lemma sweepPowerUp_flag: "snd acc \<Longrightarrow> snd (sweepPowerUp now k acc)"
  by (auto simp: sweepPowerUp_def split: option.splits)

lemma fold_sweepPowerUp_flag: "snd acc \<Longrightarrow> snd (fold (sweepPowerUp now) ks acc)"
  by (induction ks arbitrary: acc) (simp_all add: sweepPowerUp_flag)

lemma fold_sweepPowerUp_unchanged:
  "\<not> snd (fold (sweepPowerUp now) ks acc) \<Longrightarrow> fold (sweepPowerUp now) ks acc = acc"
proof (induction ks arbitrary: acc)
  case Nil
  show ?case by simp
next
  case (Cons k ks)
  from Cons.prems have n: "\<not> snd (fold (sweepPowerUp now) ks (sweepPowerUp now k acc))" by simp
  then have "\<not> snd (sweepPowerUp now k acc)" using fold_sweepPowerUp_flag by blast
  then have "sweepPowerUp now k acc = acc" by (rule sweepPowerUp_unchanged)
  with Cons.IH[OF n] show ?case by simp
qed

lemma full_effects_update:
  "full_effects ps \<Longrightarrow> activePowerUps v \<noteq> None \<Longrightarrow> full_effects (AList.update k v ps)"
  using set_update_subset[of k v ps] by (auto simp: full_effects_def)

lemma sweepPlayers_returns:
  "full_effects (fst acc) \<Longrightarrow>
   \<exists>r. sweepPlayers now ks acc = Inr r \<and> (snd acc \<longrightarrow> snd r) \<and> (\<not> snd r \<longrightarrow> fst r = fst acc)"
proof (induction ks arbitrary: acc)
  case Nil
  show ?case by simp
next
  case (Cons k ks)
  show ?case
  proof (cases "map_of (fst acc) k")
    case None
    with Cons.IH[OF Cons.prems] show ?thesis by simp
  next
    case (Some player)
    then have "(k, player) \<in> set (fst acc)" by (rule map_of_SomeD)
    with Cons.prems obtain es where es: "activePowerUps player = Some es"
      by (auto simp: full_effects_def)
    let ?kept = "filter (\<lambda>pu. endTime pu > now) es"
    show ?thesis
    proof (cases "length ?kept \<noteq> length es")
      case True
      let ?acc' = "(AList.update k (player\<lparr>activePowerUps := Some ?kept\<rparr>) (fst acc), True)"
      have "full_effects (fst ?acc')"
        using Cons.prems by (simp add: full_effects_update)
      from Cons.IH[OF this] obtain r where r: "sweepPlayers now ks ?acc' = Inr r" "snd r"
        by auto
      have "sweepPlayers now (k # ks) acc = sweepPlayers now ks ?acc'"
        using Some es True by (simp add: Let_def)
      with r show ?thesis by simp
    next
      case False
      then have "sweepPlayers now (k # ks) acc = sweepPlayers now ks acc"
        using Some es by (simp add: Let_def)
      with Cons.IH[OF Cons.prems] show ?thesis by simp
    qed
  qed
qed

text \<open>
  Claim C9, as amended. On a state whose players all have an effect list, the sweep at time
  \<open>now\<close> returns, and afterwards a power-up spawned at \<open>t\<close> with duration \<open>D\<close> is
  absent when \<open>now - t > D\<close> and still present when \<open>now - t \<le> D\<close>; no other entry
  appears.
\<close>

theorem sweep_removes_expired:
  assumes "full_effects (players s)"
  shows "\<exists>s'. cleanupExpired now s = Inr s' \<and>
           (\<forall>k. map_of (powerUps s') k =
                  (case map_of (powerUps s) k of
                     None \<Rightarrow> None
                   | Some pu \<Rightarrow> if now - timestamp pu > duration pu then None else Some pu))"
proof -
  let ?sw = "fold (sweepPowerUp now) (map fst (powerUps s)) (powerUps s, False)"
  from assms have "full_effects (fst (players s, snd ?sw))" by simp
  from sweepPlayers_returns[OF this, of now "map fst (players s)"]
  obtain r where r: "sweepPlayers now (map fst (players s)) (players s, snd ?sw) = Inr r"
    and flag: "snd ?sw \<longrightarrow> snd r"
    by auto
  let ?s' = "if snd r then s\<lparr>powerUps := fst ?sw, players := fst r\<rparr> else s"
  have res: "cleanupExpired now s = Inr ?s'"
    using r by (simp add: cleanupExpired_def Let_def split: prod.splits)
  have sw: "map_of (fst ?sw) k = swept now (map_of (powerUps s) k)" for k
  proof (cases "k \<in> set (map fst (powerUps s))")
    case True
    then show ?thesis by (simp only: fold_sweepPowerUp_map_of if_True fst_conv)
  next
    case False
    then have "map_of (powerUps s) k = None" by (simp add: map_of_eq_None_iff)
    with False show ?thesis by (simp add: fold_sweepPowerUp_map_of swept_def)
  qed
  have "map_of (powerUps ?s') k = swept now (map_of (powerUps s) k)" for k
  proof (cases "snd r")
    case True
    then show ?thesis by (simp add: sw)
  next
    case False
    with flag have "\<not> snd ?sw" by blast
    then have "?sw = (powerUps s, False)" by (rule fold_sweepPowerUp_unchanged)
    then have "fst ?sw = powerUps s" by simp
    with sw[of k] False show ?thesis by simp
  qed
  then have "\<forall>k. map_of (powerUps ?s') k =
                  (case map_of (powerUps s) k of
                     None \<Rightarrow> None
                   | Some pu \<Rightarrow> if now - timestamp pu > duration pu then None else Some pu)"
    by (simp add: swept_def)
  with res show ?thesis by blast
qed

lemma example_spawned_sweep_facts:
  "full_effects (players (gameState example_spawned))"
  "map_of (powerUps (gameState example_spawned)) ''pu1'' = Some example_powerUp"
  "timestamp example_powerUp = 1000"
  "duration example_powerUp = 30000"
  by (simp_all add: full_effects_def example_spawned_def example_powerUp_def example_defs)

theorem sweep_removes_expired_witness:
  "full_effects (players (gameState example_spawned)) \<and>
   map_of (powerUps (gameState example_spawned)) ''pu1'' = Some example_powerUp \<and>
   timestamp example_powerUp = 1000 \<and> duration example_powerUp = 30000 \<and>
   (\<exists>s'. cleanupExpired 31001 (gameState example_spawned) = Inr s' \<and>
         map_of (powerUps s') ''pu1'' = None) \<and>
   (\<exists>s'. cleanupExpired 20000 (gameState example_spawned) = Inr s' \<and>
         map_of (powerUps s') ''pu1'' = Some example_powerUp)"
proof -
  note f = example_spawned_sweep_facts
  from sweep_removes_expired [OF f(1), of 31001]
  obtain s1 where s1: "cleanupExpired 31001 (gameState example_spawned) = Inr s1"
    "\<forall>k. map_of (powerUps s1) k =
        (case map_of (powerUps (gameState example_spawned)) k of
           None \<Rightarrow> None
         | Some pu \<Rightarrow> if 31001 - timestamp pu > duration pu then None else Some pu)"
    by blast
  from s1(2) have "map_of (powerUps s1) ''pu1'' = None" by (simp add: f)
  with s1(1) have a: "\<exists>s'. cleanupExpired 31001 (gameState example_spawned) = Inr s' \<and>
         map_of (powerUps s') ''pu1'' = None" by blast
  from sweep_removes_expired [OF f(1), of 20000]
  obtain s2 where s2: "cleanupExpired 20000 (gameState example_spawned) = Inr s2"
    "\<forall>k. map_of (powerUps s2) k =
        (case map_of (powerUps (gameState example_spawned)) k of
           None \<Rightarrow> None
         | Some pu \<Rightarrow> if 20000 - timestamp pu > duration pu then None else Some pu)"
    by blast
  from s2(2) have "map_of (powerUps s2) ''pu1'' = Some example_powerUp" by (simp add: f)
  with s2(1) have b: "\<exists>s'. cleanupExpired 20000 (gameState example_spawned) = Inr s' \<and>
         map_of (powerUps s') ''pu1'' = Some example_powerUp" by blast
  from f a b show ?thesis by blast
qed

text \<open>
  The claim as stated fails at the query time \<open>t + D\<close> itself: the sweep run at
  \<open>1000 + 30000\<close> leaves the power-up spawned at 1000 with duration 30000 in the mapping
  (the test is \<open>now - timestamp > duration\<close>).
\<close>

theorem sweep_at_expiry_counterexample:
  "map_of (powerUps (gameState example_spawned)) ''pu1'' = Some example_powerUp \<and>
   timestamp example_powerUp + duration example_powerUp = 31000 \<and>
   cleanupExpired 31000 (gameState example_spawned) = Inr (gameState example_spawned)"
  by (simp add: example_spawned_def example_powerUp_def example_defs cleanupExpired_def
      sweepPowerUp_def Let_def)

section \<open>Collecting a power-up\<close>

text \<open>
  Claim C10. A local collection succeeds when the channel is set, the power-up is in the
  mapping and the collector is a tracked player with an effect list. It then publishes one
  \<open>power_up_collect\<close> message, and the only changes of the state are: the effect (the
  type of the power-up, expiry \<open>now + 10000\<close>, multiplier 1.5) is appended to the
  collector's effect list, and the power-up is removed from the mapping. Every other field
  of the collector, every other player, the order of the players, the health of every
  player (whatever the type of the power-up), every other power-up, and every other field
  of the game state and of the component are unchanged.
\<close>

theorem handlePowerUpCollect_frame:
  assumes "channel a"
    and "map_of (powerUps (gameState a)) powerUpId = Some powerUp"
    and "map_of (players (gameState a)) (currentPlayerId a) = Some p"
    and "activePowerUps p = Some es"
  shows "\<exists>a'. handlePowerUpCollect now powerUpId a =
           Inr ([publish_power_up_collect (currentPlayerId a) powerUpId
                   \<lparr>effect_type = powerup_type powerUp, endTime = now + 10000, multiplier = 1.5\<rparr>], a') \<and>
         map_of (players (gameState a')) (currentPlayerId a) =
           Some (p\<lparr>activePowerUps :=
                     Some (es @ [\<lparr>effect_type = powerup_type powerUp, endTime = now + 10000,
                                  multiplier = 1.5\<rparr>])\<rparr>) \<and>
         (\<forall>k. k \<noteq> currentPlayerId a \<longrightarrow>
              map_of (players (gameState a')) k = map_of (players (gameState a)) k) \<and>
         map fst (players (gameState a')) = map fst (players (gameState a)) \<and>
         (\<forall>k. healthOf (gameState a') k = healthOf (gameState a) k) \<and>
         (\<forall>k. map_of (powerUps (gameState a')) k =
              (if k = powerUpId then None else map_of (powerUps (gameState a)) k)) \<and>
         (gameState a')\<lparr>players := players (gameState a), powerUps := powerUps (gameState a)\<rparr> =
           gameState a \<and>
         a'\<lparr>gameState := gameState a\<rparr> = a"
proof -
  let ?e = "\<lparr>effect_type = powerup_type powerUp, endTime = now + 10000, multiplier = 1.5\<rparr>"
  let ?ps' = "AList.update (currentPlayerId a) (p\<lparr>activePowerUps := Some (es @ [?e])\<rparr>)
                (players (gameState a))"
  let ?a' = "a\<lparr>gameState := (gameState a)
                 \<lparr>players := ?ps',
                  powerUps := AList.delete powerUpId (powerUps (gameState a))\<rparr>\<rparr>"
  have r: "handlePowerUpCollect now powerUpId a =
      Inr ([publish_power_up_collect (currentPlayerId a) powerUpId ?e], ?a')"
    using assms by (simp add: handlePowerUpCollect_def Let_def addEffect_tracked)
  have pl: "players (gameState ?a') = ?ps'" and pu: "powerUps (gameState ?a') = AList.delete powerUpId (powerUps (gameState a))"
    by simp_all
  have m: "map_of ?ps' k = (if k = currentPlayerId a then Some (p\<lparr>activePowerUps := Some (es @ [?e])\<rparr>)
                            else map_of (players (gameState a)) k)" for k
    by (simp add: update_conv')
  have h: "healthOf (gameState ?a') k = healthOf (gameState a) k" for k
    unfolding healthOf_def pl m using assms(3) by simp
  have keys: "map fst ?ps' = map fst (players (gameState a))"
    using assms(3) by (rule update_present_keys)
  have pm: "map_of (powerUps (gameState ?a')) k =
              (if k = powerUpId then None else map_of (powerUps (gameState a)) k)" for k
    unfolding pu by (simp add: delete_conv')
  have f1: "(gameState ?a')\<lparr>players := players (gameState a), powerUps := powerUps (gameState a)\<rparr> =
           gameState a" by simp
  have f2: "?a'\<lparr>gameState := gameState a\<rparr> = a" by simp
  have c1: "map_of (players (gameState ?a')) (currentPlayerId a) =
              Some (p\<lparr>activePowerUps := Some (es @ [?e])\<rparr>)"
    unfolding pl m by simp
  have c2: "\<forall>k. k \<noteq> currentPlayerId a \<longrightarrow>
              map_of (players (gameState ?a')) k = map_of (players (gameState a)) k"
    unfolding pl m by simp
  have c3: "map fst (players (gameState ?a')) = map fst (players (gameState a))"
    unfolding pl by (rule keys)
  show ?thesis
  proof (intro exI conjI)
    show "handlePowerUpCollect now powerUpId a =
      Inr ([publish_power_up_collect (currentPlayerId a) powerUpId ?e], ?a')" by (rule r)
    show "map_of (players (gameState ?a')) (currentPlayerId a) =
              Some (p\<lparr>activePowerUps := Some (es @ [?e])\<rparr>)" by (rule c1)
    show "\<forall>k. k \<noteq> currentPlayerId a \<longrightarrow>
              map_of (players (gameState ?a')) k = map_of (players (gameState a)) k" by (rule c2)
    show "map fst (players (gameState ?a')) = map fst (players (gameState a))" by (rule c3)
    show "\<forall>k. healthOf (gameState ?a') k = healthOf (gameState a) k" using h by blast
    show "\<forall>k. map_of (powerUps (gameState ?a')) k =
              (if k = powerUpId then None else map_of (powerUps (gameState a)) k)" using pm by blast
    show "(gameState ?a')\<lparr>players := players (gameState a), powerUps := powerUps (gameState a)\<rparr> =
           gameState a" by (rule f1)
    show "?a'\<lparr>gameState := gameState a\<rparr> = a" by (rule f2)
  qed
qed

lemma example_spawned_facts:
  "channel example_spawned"
  "currentPlayerId example_spawned = ''alice''"
  "map_of (powerUps (gameState example_spawned)) ''pu1'' = Some example_powerUp"
  "map_of (players (gameState example_spawned)) (currentPlayerId example_spawned) =
     Some (presencePlayer (example_user ''alice'' 0.5 0.5))"
  "activePowerUps (presencePlayer (example_user ''alice'' 0.5 0.5)) = Some []"
  "healthOf (gameState example_spawned) ''alice'' = Some 100"
  by (simp_all add: example_spawned_def example_defs healthOf_def)

theorem handlePowerUpCollect_frame_witness:
  "channel example_spawned \<and>
   map_of (powerUps (gameState example_spawned)) ''pu1'' = Some example_powerUp \<and>
   powerup_type example_powerUp = Health \<and>
   effectsOf (gameState example_spawned) ''alice'' = Some [] \<and>
   healthOf (gameState example_spawned) ''alice'' = Some 100 \<and>
   (\<exists>a'. handlePowerUpCollect 2000 ''pu1'' example_spawned =
           Inr ([publish_power_up_collect ''alice'' ''pu1'' example_effect], a') \<and>
         effectsOf (gameState a') ''alice'' = Some [example_effect] \<and>
         healthOf (gameState a') ''alice'' = Some 100 \<and>
         map_of (powerUps (gameState a')) ''pu1'' = None)"
proof -
  note f = example_spawned_facts
  have e: "\<lparr>effect_type = powerup_type example_powerUp, endTime = 2000 + 10000, multiplier = 1.5\<rparr> =
           example_effect"
    by (simp add: example_effect_def example_powerUp_def)
  have ty: "powerup_type example_powerUp = Health" by (simp add: example_powerUp_def)
  have es: "effectsOf (gameState example_spawned) ''alice'' = Some []"
    using f(4) by (simp add: effectsOf_def f(2) presencePlayer_def)
  from handlePowerUpCollect_frame [OF f(1) f(3) f(4) f(5), of 2000, unfolded e f(2)]
  obtain a' where a': "handlePowerUpCollect 2000 ''pu1'' example_spawned =
           Inr ([publish_power_up_collect ''alice'' ''pu1'' example_effect], a')"
    "map_of (players (gameState a')) ''alice'' =
       Some ((presencePlayer (example_user ''alice'' 0.5 0.5))\<lparr>activePowerUps := Some ([] @ [example_effect])\<rparr>)"
    "\<forall>k. healthOf (gameState a') k = healthOf (gameState example_spawned) k"
    "\<forall>k. map_of (powerUps (gameState a')) k =
              (if k = ''pu1'' then None else map_of (powerUps (gameState example_spawned)) k)"
    by blast
  from a'(2) have "effectsOf (gameState a') ''alice'' = Some [example_effect]"
    by (simp add: effectsOf_def)
  moreover from a'(3) f(6) have "healthOf (gameState a') ''alice'' = Some 100" by simp
  moreover from a'(4) have "map_of (powerUps (gameState a')) ''pu1'' = None" by simp
  ultimately show ?thesis using a'(1) f(1,3,6) ty es by blast
qed

end
